theory Spec2Isabelle
  imports Complex_Main
begin

section \<open>Escape the Secret Island: the simulation core\<close>

text \<open>
  A shallow embedding of \<^verbatim>\<open>entities.py\<close>, \<^verbatim>\<open>levels.py\<close>, \<^verbatim>\<open>models.py\<close> and the
  state-changing parts of \<^verbatim>\<open>game.py\<close>. Python objects become records that are passed
  in and returned; Python \<^verbatim>\<open>int\<close> is \<^typ>\<open>int\<close>. Python \<^verbatim>\<open>float\<close> values are reals:
  comparisons, \<^verbatim>\<open>max\<close>, \<^verbatim>\<open>min\<close> and \<^verbatim>\<open>int()\<close> are exact on floats, and the timers,
  stamina and velocities are computed without rounding. The probe coordinates of the
  line-of-sight test, where a rounded float is truncated and set against the integer
  walls of the levels, are computed with binary64 rounding after every operation.
\<close>

subsection \<open>Constants of settings.py\<close>

text \<open>
  \<^verbatim>\<open>settings.py\<close> is not among the sources, so the constants it exports are a parameter
  of every function that reads them.
\<close>

record Settings =
  WIDTH :: int
  HEIGHT :: int
  MAX_STAMINA :: real
  PLAYER_SPEED :: real
  SPRINT_MULTIPLIER :: real
  BULLET_SPEED :: real

text \<open>
  Sample values for the constants of \<^verbatim>\<open>settings.py\<close>, used only where a function is
  evaluated at a concrete input.
\<close>

definition sample_settings :: Settings where
  "sample_settings = \<lparr>WIDTH = 1200, HEIGHT = 720, MAX_STAMINA = 100, PLAYER_SPEED = 3,
     SPRINT_MULTIPLIER = 2, BULLET_SPEED = 9\<rparr>"

subsection \<open>Vectors (pygame.math.Vector2)\<close>

type_synonym Vec = "real \<times> real"

definition vsub :: "Vec \<Rightarrow> Vec \<Rightarrow> Vec" where
  "vsub a b = (fst a - fst b, snd a - snd b)"

definition vadd :: "Vec \<Rightarrow> Vec \<Rightarrow> Vec" where
  "vadd a b = (fst a + fst b, snd a + snd b)"

definition vscale :: "Vec \<Rightarrow> real \<Rightarrow> Vec" where
  "vscale a k = (fst a * k, snd a * k)"

definition length_squared :: "Vec \<Rightarrow> real" where
  "length_squared a = fst a * fst a + snd a * snd a"

definition vlength :: "Vec \<Rightarrow> real" where
  "vlength a = sqrt (length_squared a)"

text \<open>
  \<^verbatim>\<open>Vector2.normalize\<close> raises on the zero vector; every call in the source is guarded
  by a test that the vector is not zero, and the guard is kept at each call below.
\<close>

definition normalize_vec :: "Vec \<Rightarrow> Vec" where
  "normalize_vec a = (fst a / vlength a, snd a / vlength a)"

definition vec_of :: "int \<times> int \<Rightarrow> Vec" where
  "vec_of p = (real_of_int (fst p), real_of_int (snd p))"

text \<open>Python's \<^verbatim>\<open>int(f)\<close> on a float: truncation toward zero.\<close>

definition py_int :: "real \<Rightarrow> int" where
  "py_int f = (if 0 \<le> f then \<lfloor>f\<rfloor> else \<lceil>f\<rceil>)"

text \<open>
  Binary64 arithmetic: \<open>fl\<close> rounds a real to the nearest number with a 53-bit
  significand, ties to the even significand. For a result in the range of normal doubles
  (all results of the probe computation are, or are zero) this is the value the
  hardware operation returns.
\<close>

definition round_even :: "real \<Rightarrow> int" where
  "round_even q =
     (let f = \<lfloor>q\<rfloor>; r = q - real_of_int f
      in if r < 1/2 then f else if r > 1/2 then f + 1 else if even f then f else f + 1)"

definition fl :: "real \<Rightarrow> real" where
  "fl x =
     (if x = 0 then 0
      else let u = 2 powr real_of_int (\<lfloor>log 2 \<bar>x\<bar>\<rfloor> - 52)
           in real_of_int (round_even (x / u)) * u)"

subsection \<open>Rectangles (pygame.Rect)\<close>

record Rect =
  rx :: int
  ry :: int
  rw :: int
  rh :: int

definition mk_rect :: "int \<Rightarrow> int \<Rightarrow> int \<Rightarrow> int \<Rightarrow> Rect" where
  "mk_rect a b c d = \<lparr>rx = a, ry = b, rw = c, rh = d\<rparr>"

text \<open>C integer division by two, as pygame computes a rectangle's centre.\<close>

definition half :: "int \<Rightarrow> int" where
  "half n = (if 0 \<le> n then n div 2 else - ((- n) div 2))"

definition rect_left :: "Rect \<Rightarrow> int" where "rect_left r = rx r"
definition rect_top :: "Rect \<Rightarrow> int" where "rect_top r = ry r"
definition rect_right :: "Rect \<Rightarrow> int" where "rect_right r = rx r + rw r"
definition rect_bottom :: "Rect \<Rightarrow> int" where "rect_bottom r = ry r + rh r"
definition rect_centerx :: "Rect \<Rightarrow> int" where "rect_centerx r = rx r + half (rw r)"
definition rect_centery :: "Rect \<Rightarrow> int" where "rect_centery r = ry r + half (rh r)"
definition rect_center :: "Rect \<Rightarrow> int \<times> int" where
  "rect_center r = (rect_centerx r, rect_centery r)"

definition set_left :: "int \<Rightarrow> Rect \<Rightarrow> Rect" where "set_left v r = r\<lparr>rx := v\<rparr>"
definition set_top :: "int \<Rightarrow> Rect \<Rightarrow> Rect" where "set_top v r = r\<lparr>ry := v\<rparr>"
definition set_right :: "int \<Rightarrow> Rect \<Rightarrow> Rect" where "set_right v r = r\<lparr>rx := v - rw r\<rparr>"
definition set_bottom :: "int \<Rightarrow> Rect \<Rightarrow> Rect" where "set_bottom v r = r\<lparr>ry := v - rh r\<rparr>"
definition set_topleft :: "int \<times> int \<Rightarrow> Rect \<Rightarrow> Rect" where
  "set_topleft p r = r\<lparr>rx := fst p, ry := snd p\<rparr>"
definition set_centery :: "int \<Rightarrow> Rect \<Rightarrow> Rect" where
  "set_centery v r = r\<lparr>ry := v - half (rh r)\<rparr>"
definition set_center :: "int \<times> int \<Rightarrow> Rect \<Rightarrow> Rect" where
  "set_center p r = r\<lparr>rx := fst p - half (rw r), ry := snd p - half (rh r)\<rparr>"

text \<open>
  \<^verbatim>\<open>Rect.colliderect\<close>: pygame's overlap test. A rectangle of zero width or height
  collides with nothing; sides are compared strictly, so rectangles that only touch
  do not collide.
\<close>

definition colliderect :: "Rect \<Rightarrow> Rect \<Rightarrow> bool" where
  "colliderect a b \<longleftrightarrow>
     rw a \<noteq> 0 \<and> rh a \<noteq> 0 \<and> rw b \<noteq> 0 \<and> rh b \<noteq> 0 \<and>
     min (rx a) (rx a + rw a) < max (rx b) (rx b + rw b) \<and>
     min (ry a) (ry a + rh a) < max (ry b) (ry b + rh b) \<and>
     max (rx a) (rx a + rw a) > min (rx b) (rx b + rw b) \<and>
     max (ry a) (ry a + rh a) > min (ry b) (ry b + rh b)"

text \<open>\<^verbatim>\<open>Rect.inflate(dx, dy)\<close>: grows the rectangle around its centre.\<close>

definition inflate :: "int \<Rightarrow> int \<Rightarrow> Rect \<Rightarrow> Rect" where
  "inflate dx dy r = \<lparr>rx = rx r - half dx, ry = ry r - half dy, rw = rw r + dx, rh = rh r + dy\<rparr>"

subsection \<open>models.py\<close>

record DifficultyProfile =
  name :: string
  player_health :: int
  stamina_drain :: real
  stamina_recover :: real
  guard_speed :: real
  guard_sight :: int
  guard_shoot_cooldown :: real
  guard_health :: int
  guard_damage :: int
  player_damage :: int
  extra_guards :: int

text \<open>The three presets of \<^verbatim>\<open>levels.py\<close>.\<close>

definition Story :: DifficultyProfile where
  "Story = \<lparr>name = ''Story'', player_health = 120, stamina_drain = 24, stamina_recover = 20,
     guard_speed = 1.45, guard_sight = 260, guard_shoot_cooldown = 1.2, guard_health = 38,
     guard_damage = 12, player_damage = 24, extra_guards = 0\<rparr>"

definition Survivor :: DifficultyProfile where
  "Survivor = \<lparr>name = ''Survivor'', player_health = 95, stamina_drain = 30, stamina_recover = 15,
     guard_speed = 1.9, guard_sight = 340, guard_shoot_cooldown = 0.85, guard_health = 55,
     guard_damage = 18, player_damage = 20, extra_guards = 1\<rparr>"

definition Nightmare :: DifficultyProfile where
  "Nightmare = \<lparr>name = ''Nightmare'', player_health = 75, stamina_drain = 38, stamina_recover = 11,
     guard_speed = 2.4, guard_sight = 420, guard_shoot_cooldown = 0.62, guard_health = 70,
     guard_damage = 24, player_damage = 18, extra_guards = 2\<rparr>"

definition DIFFICULTIES :: "DifficultyProfile list" where
  "DIFFICULTIES = [Story, Survivor, Nightmare]"

record ZoneGate =
  gate_rect :: Rect
  target_zone :: string
  spawn :: "int \<times> int"
  required_key :: "string option"

subsection \<open>entities.py: Bullet and Character\<close>

record Bullet =
  pos :: Vec
  dir :: Vec
  owner :: string
  radius :: int
  alive :: bool

definition Bullet_init :: "Vec \<Rightarrow> Vec \<Rightarrow> string \<Rightarrow> Bullet" where
  "Bullet_init p direction own =
     \<lparr>pos = p,
      dir = (if length_squared direction \<noteq> 0 then normalize_vec direction else (1, 0)),
      owner = own,
      radius = (if own = ''player'' then 4 else 5),
      alive = True\<rparr>"

record Character =
  rect :: Rect
  vel :: Vec
  look_dir :: Vec
  muzzle_timer :: real

text \<open>
  \<^verbatim>\<open>Character.move_and_collide\<close>: two passes over the obstacle list, the first after
  the horizontal move, the second after the vertical one. Each loop body is a step
  function; the loops are folds from left to right over the list.
\<close>

definition resolve_x :: "real \<Rightarrow> Rect \<Rightarrow> Rect \<Rightarrow> Rect" where
  "resolve_x vx r wall =
     (if colliderect r wall then
        (if vx > 0 then set_right (rect_left wall) r
         else if vx < 0 then set_left (rect_right wall) r
         else r)
      else r)"

definition resolve_y :: "real \<Rightarrow> Rect \<Rightarrow> Rect \<Rightarrow> Rect" where
  "resolve_y vy r wall =
     (if colliderect r wall then
        (if vy > 0 then set_bottom (rect_top wall) r
         else if vy < 0 then set_top (rect_bottom wall) r
         else r)
      else r)"

definition shift_x :: "int \<Rightarrow> Rect \<Rightarrow> Rect" where
  "shift_x d r = r\<lparr>rx := rx r + d\<rparr>"

definition shift_y :: "int \<Rightarrow> Rect \<Rightarrow> Rect" where
  "shift_y d r = r\<lparr>ry := ry r + d\<rparr>"

definition move_rect :: "Vec \<Rightarrow> Rect list \<Rightarrow> Rect \<Rightarrow> Rect" where
  "move_rect v obstacles r =
     (let r1 = shift_x (py_int (fst v)) r;
          r2 = foldl (resolve_x (fst v)) r1 obstacles;
          r3 = shift_y (py_int (snd v)) r2
      in foldl (resolve_y (snd v)) r3 obstacles)"

definition move_and_collide :: "Rect list \<Rightarrow> 'a Character_scheme \<Rightarrow> 'a Character_scheme" where
  "move_and_collide obstacles c = c\<lparr>rect := move_rect (vel c) obstacles (rect c)\<rparr>"

subsection \<open>entities.py: Player\<close>

text \<open>
  \<^verbatim>\<open>Player.keys\<close> is a dictionary created with exactly the three names below; the source
  only ever assigns to these three entries, so the dictionary is a record of three
  flags, read by name with \<^verbatim>\<open>keys.get(k, False)\<close> and \<^verbatim>\<open>keys[k]\<close>.
\<close>

record Keys =
  jail_key :: bool
  cave_key :: bool
  boat_key :: bool

definition keys_get :: "Keys \<Rightarrow> string \<Rightarrow> bool \<Rightarrow> bool" where
  "keys_get ks k d =
     (if k = ''jail_key'' then jail_key ks
      else if k = ''cave_key'' then cave_key ks
      else if k = ''boat_key'' then boat_key ks
      else d)"

definition keys_set_true :: "string \<Rightarrow> Keys \<Rightarrow> Keys" where
  "keys_set_true k ks =
     (if k = ''jail_key'' then ks\<lparr>jail_key := True\<rparr>
      else if k = ''cave_key'' then ks\<lparr>cave_key := True\<rparr>
      else if k = ''boat_key'' then ks\<lparr>boat_key := True\<rparr>
      else ks)"

definition keys_all :: "Keys \<Rightarrow> bool" where
  "keys_all ks \<longleftrightarrow> jail_key ks \<and> cave_key ks \<and> boat_key ks"

record Player = Character +
  health :: int
  stamina :: real
  has_gun :: bool
  ammo :: int
  keys :: Keys
  clues :: int
  rescued_npcs :: int
  fire_cooldown :: real

definition Player_init :: "Settings \<Rightarrow> int \<Rightarrow> int \<Rightarrow> DifficultyProfile \<Rightarrow> Player" where
  "Player_init cfg px py prof =
     \<lparr>rect = mk_rect px py 22 32, vel = (0, 0), look_dir = (1, 0), muzzle_timer = 0,
      health = player_health prof, stamina = MAX_STAMINA cfg, has_gun = False, ammo = 0,
      keys = \<lparr>jail_key = False, cave_key = False, boat_key = False\<rparr>,
      clues = 0, rescued_npcs = 0, fire_cooldown = 0\<rparr>"

subsection \<open>entities.py: Guard\<close>

record Guard = Character +
  patrol_points :: "Vec list"
  current_patrol :: nat
  health :: int
  profile :: DifficultyProfile
  shoot_timer :: real
  alerted :: bool

text \<open>
  \<^verbatim>\<open>Guard.__init__\<close>. The first shoot timer is drawn by \<^verbatim>\<open>random.uniform(0.2, 0.8)\<close>;
  the drawn value is the argument \<open>t0\<close>.
\<close>

definition Guard_init ::
  "Settings \<Rightarrow> int \<Rightarrow> int \<Rightarrow> (int \<times> int) list \<Rightarrow> DifficultyProfile \<Rightarrow> real \<Rightarrow> Guard" where
  "Guard_init cfg gx gy pts prof t0 =
     (let gx' = max 50 (min (WIDTH cfg - 70) gx);
          gy' = max 50 (min (HEIGHT cfg - 70) gy)
      in \<lparr>rect = mk_rect gx' gy' 22 32, vel = (0, 0), look_dir = (1, 0), muzzle_timer = 0,
          patrol_points = map vec_of pts, current_patrol = 0,
          health = guard_health prof, profile = prof, shoot_timer = t0, alerted = False\<rparr>)"

subsection \<open>entities.py: Player.handle_input and Player.try_shoot\<close>

text \<open>
  The keys held, as \<^verbatim>\<open>pygame.key.get_pressed()\<close> reports them, are an input of
  \<^verbatim>\<open>handle_input\<close>.
\<close>

record KeyState =
  K_w :: bool
  K_UP :: bool
  K_s :: bool
  K_DOWN :: bool
  K_a :: bool
  K_LEFT :: bool
  K_d :: bool
  K_RIGHT :: bool
  K_LSHIFT :: bool
  K_RSHIFT :: bool

definition input_direction :: "KeyState \<Rightarrow> Vec" where
  "input_direction ks =
     ((if K_a ks \<or> K_LEFT ks then - 1 else 0) + (if K_d ks \<or> K_RIGHT ks then 1 else 0),
      (if K_w ks \<or> K_UP ks then - 1 else 0) + (if K_s ks \<or> K_DOWN ks then 1 else 0))"

definition sprinting :: "KeyState \<Rightarrow> Player \<Rightarrow> bool" where
  "sprinting ks p \<longleftrightarrow>
     (K_LSHIFT ks \<or> K_RSHIFT ks) \<and> stamina p > 0 \<and> length_squared (input_direction ks) > 0"

definition handle_input ::
  "Settings \<Rightarrow> KeyState \<Rightarrow> real \<Rightarrow> real \<Rightarrow> real \<Rightarrow> Player \<Rightarrow> Player" where
  "handle_input cfg ks dt drain recover p =
     (let direction = input_direction ks;
          spr = sprinting ks p;
          speed = PLAYER_SPEED cfg * (if spr then SPRINT_MULTIPLIER cfg else 1);
          p1 = (if spr then p\<lparr>stamina := max 0 (stamina p - drain * dt)\<rparr>
                else p\<lparr>stamina := min (MAX_STAMINA cfg) (stamina p + recover * dt)\<rparr>);
          moving = length_squared direction > 0;
          direction' = (if moving then normalize_vec direction else direction);
          p2 = (if moving then p1\<lparr>look_dir := direction'\<rparr> else p1);
          p3 = p2\<lparr>vel := vscale direction' speed\<rparr>;
          p4 = p3\<lparr>fire_cooldown := max 0 (fire_cooldown p3 - dt)\<rparr>
      in p4\<lparr>muzzle_timer := max 0 (muzzle_timer p4 - dt)\<rparr>)"

text \<open>A run of frames: each frame supplies the keys held and its \<open>dt\<close>.\<close>

fun handle_inputs ::
  "Settings \<Rightarrow> real \<Rightarrow> real \<Rightarrow> (KeyState \<times> real) list \<Rightarrow> Player \<Rightarrow> Player" where
  "handle_inputs cfg drain recover [] p = p"
| "handle_inputs cfg drain recover ((ks, dt) # rest) p =
     handle_inputs cfg drain recover rest (handle_input cfg ks dt drain recover p)"

definition try_shoot :: "int \<times> int \<Rightarrow> Player \<Rightarrow> Player \<times> Bullet option" where
  "try_shoot target_pos p =
     (if \<not> has_gun p \<or> ammo p \<le> 0 \<or> fire_cooldown p > 0 then (p, None)
      else
        let p1 = p\<lparr>ammo := ammo p - 1\<rparr>;
            p2 = p1\<lparr>fire_cooldown := 0.18\<rparr>;
            origin = vec_of (rect_center (rect p2));
            direction = vsub (vec_of target_pos) origin;
            p3 = (if length_squared direction > 0 then p2\<lparr>look_dir := normalize_vec direction\<rparr>
                  else p2);
            p4 = p3\<lparr>muzzle_timer := 0.05\<rparr>
        in (p4, Some (Bullet_init origin direction ''player'')))"

subsection \<open>entities.py: Guard.update\<close>

datatype py_error = IndexError | KeyError | ValueError | ZeroDivisionError

text \<open>
  \<^verbatim>\<open>Guard._line_of_sight\<close>: probes \<open>i = 1, ..., 25\<close> at \<open>t = i / 26\<close> between the two
  centres. A probe coordinate is \<^verbatim>\<open>x1 + (x2 - x1) * t - 2\<close>: a float division, product,
  sum and difference, each rounded, and \<^verbatim>\<open>pygame.Rect\<close> truncates the float it is given.
\<close>

definition probe_coord :: "int \<Rightarrow> int \<Rightarrow> nat \<Rightarrow> int" where
  "probe_coord a b i =
     py_int (fl (fl (real_of_int a + fl (real_of_int (b - a) * fl (real i / 26))) - 2))"

definition probe :: "int \<times> int \<Rightarrow> int \<times> int \<Rightarrow> nat \<Rightarrow> Rect" where
  "probe c1 c2 i = mk_rect (probe_coord (fst c1) (fst c2) i) (probe_coord (snd c1) (snd c2) i) 4 4"

fun los_loop :: "int \<times> int \<Rightarrow> int \<times> int \<Rightarrow> Rect list \<Rightarrow> nat list \<Rightarrow> bool" where
  "los_loop c1 c2 obstacles [] = True"
| "los_loop c1 c2 obstacles (i # rest) =
     (if list_ex (\<lambda>w. colliderect w (probe c1 c2 i)) obstacles then False
      else los_loop c1 c2 obstacles rest)"

definition line_of_sight :: "Rect \<Rightarrow> int \<times> int \<Rightarrow> Rect list \<Rightarrow> bool" where
  "line_of_sight self_rect target obstacles =
     los_loop (rect_center self_rect) target obstacles [1..<26]"

text \<open>
  The tail of \<^verbatim>\<open>Guard.update\<close>, shared by the two branches: move, run the timers,
  and fire when the guard can see the player and the shoot timer has run out.
\<close>

definition guard_finish ::
  "real \<Rightarrow> bool \<Rightarrow> Vec \<Rightarrow> Rect list \<Rightarrow> Guard \<Rightarrow> Guard \<times> Bullet option" where
  "guard_finish dt can_see to_player obstacles g =
     (let g1 = move_and_collide obstacles g;
          g2 = g1\<lparr>shoot_timer := shoot_timer g1 - dt\<rparr>;
          g3 = g2\<lparr>muzzle_timer := max 0 (muzzle_timer g2 - dt)\<rparr>
      in if can_see \<and> shoot_timer g3 \<le> 0 then
           (g3\<lparr>shoot_timer := guard_shoot_cooldown (profile g3), muzzle_timer := 0.05\<rparr>,
            Some (Bullet_init (vec_of (rect_center (rect g3))) to_player ''guard''))
         else (g3, None))"

text \<open>
  \<^verbatim>\<open>Guard.update\<close> returns the guard as the call leaves it together with either the
  exception raised (indexing an empty or too short patrol list) or the optional bullet.
  The fields assigned before an exception keep their new values, as in Python.
\<close>

definition to_player_of :: "Player \<Rightarrow> Guard \<Rightarrow> Vec" where
  "to_player_of player g = vsub (vec_of (rect_center (rect player))) (vec_of (rect_center (rect g)))"

definition can_see_of :: "Player \<Rightarrow> Rect list \<Rightarrow> Guard \<Rightarrow> bool" where
  "can_see_of player obstacles g \<longleftrightarrow>
     vlength (to_player_of player g) \<le> real_of_int (guard_sight (profile g))
     \<and> line_of_sight (rect g) (rect_center (rect player)) obstacles"

definition Guard_update ::
  "real \<Rightarrow> Player \<Rightarrow> Rect list \<Rightarrow> Guard \<Rightarrow> Guard \<times> (py_error + Bullet option)" where
  "Guard_update dt player obstacles g =
     (let to_player = to_player_of player g;
          dist = vlength to_player;
          can_see = can_see_of player obstacles g;
          g1 = g\<lparr>alerted := can_see\<rparr>
      in if can_see then
           let g2 = g1\<lparr>look_dir := (if dist > 0 then normalize_vec to_player else look_dir g1)\<rparr>;
               g3 = g2\<lparr>vel := (if dist > 75 then vscale (look_dir g2) (guard_speed (profile g2))
                                 else (0, 0))\<rparr>;
               r = guard_finish dt can_see to_player obstacles g3
           in (fst r, Inr (snd r))
         else if length (patrol_points g1) \<le> current_patrol g1 then (g1, Inl IndexError)
         else
           let centre = vec_of (rect_center (rect g1));
               path0 = vsub (patrol_points g1 ! current_patrol g1) centre;
               g2 = (if vlength path0 < 10
                     then g1\<lparr>current_patrol := (current_patrol g1 + 1) mod length (patrol_points g1)\<rparr>
                     else g1);
               path = (if vlength path0 < 10 then vsub (patrol_points g2 ! current_patrol g2) centre
                       else path0);
               g3 = g2\<lparr>vel := (if length_squared path > 0
                                 then vscale (normalize_vec path) (guard_speed (profile g2))
                                 else (0, 0))\<rparr>;
               g4 = (if length_squared path > 0 then g3\<lparr>look_dir := normalize_vec path\<rparr> else g3);
               r = guard_finish dt can_see to_player obstacles g4
           in (fst r, Inr (snd r)))"

text \<open>The key state with no key held.\<close>

definition keys_none :: KeyState where
  "keys_none = \<lparr>K_w = False, K_UP = False, K_s = False, K_DOWN = False, K_a = False,
     K_LEFT = False, K_d = False, K_RIGHT = False, K_LSHIFT = False, K_RSHIFT = False\<rparr>"

subsection \<open>entities.py: NPC\<close>

record NPC = Character +
  zone :: string
  following :: bool
  rescued :: bool

definition NPC_init :: "int \<Rightarrow> int \<Rightarrow> string \<Rightarrow> NPC" where
  "NPC_init nx ny z =
     \<lparr>rect = mk_rect nx ny 20 30, vel = (0, 0), look_dir = (1, 0), muzzle_timer = 0,
      zone = z, following = False, rescued = False\<rparr>"

subsection \<open>levels.py: zone data\<close>

definition border :: "Settings \<Rightarrow> Rect list" where
  "border cfg =
     [mk_rect 0 0 (WIDTH cfg) 40,
      mk_rect 0 (HEIGHT cfg - 40) (WIDTH cfg) 40,
      mk_rect 0 0 40 (HEIGHT cfg),
      mk_rect (WIDTH cfg - 40) 0 40 (HEIGHT cfg)]"

definition mk_gate :: "Rect \<Rightarrow> string \<Rightarrow> int \<times> int \<Rightarrow> string option \<Rightarrow> ZoneGate" where
  "mk_gate r t s k = \<lparr>gate_rect = r, target_zone = t, spawn = s, required_key = k\<rparr>"

definition build_zone_data :: "Settings \<Rightarrow> string \<Rightarrow> Rect list \<times> ZoneGate list \<times> Rect option" where
  "build_zone_data cfg z =
     (if z = ''Ground'' then
        (border cfg @
           [mk_rect 270 90 620 24, mk_rect 270 90 24 220, mk_rect 866 90 24 200,
            mk_rect 180 320 560 24, mk_rect 716 320 24 210, mk_rect 330 530 410 24],
         [mk_gate (mk_rect 52 84 54 92) ''Estate'' (1060, 620) (Some ''jail_key'')],
         None)
      else if z = ''Estate'' then
        (border cfg @
           [mk_rect 130 180 840 24, mk_rect 130 180 24 360, mk_rect 946 180 24 360,
            mk_rect 350 340 430 24, mk_rect 350 340 24 180, mk_rect 756 340 24 180,
            mk_rect 550 530 230 24],
         [mk_gate (mk_rect 1082 620 56 56) ''Ground'' (100, 140) None,
          mk_gate (mk_rect 80 620 60 60) ''Tunnels'' (1040, 600) (Some ''cave_key'')],
         None)
      else if z = ''Tunnels'' then
        (border cfg @
           [mk_rect 120 120 200 20, mk_rect 400 120 500 20, mk_rect 120 120 20 300,
            mk_rect 880 120 20 300, mk_rect 120 400 300 20, mk_rect 500 400 400 20,
            mk_rect 400 200 20 220, mk_rect 600 200 20 220, mk_rect 120 520 300 20,
            mk_rect 580 520 300 20, mk_rect 120 400 20 140, mk_rect 860 400 20 140,
            mk_rect 250 220 100 20, mk_rect 650 220 100 20],
         [mk_gate (mk_rect 1082 620 56 56) ''Estate'' (120, 620) None,
          mk_gate (mk_rect 70 80 80 80) ''Harbor'' (500, 400) (Some ''boat_key'')],
         None)
      else if z = ''Harbor'' then
        (border cfg @
           [mk_rect 200 400 150 80, mk_rect 500 450 120 60, mk_rect 900 400 150 70,
            mk_rect 300 550 40 40, mk_rect 600 350 40 40, mk_rect 400 500 30 30,
            mk_rect 700 500 30 30, mk_rect 820 180 15 60, mk_rect 920 180 15 60,
            mk_rect 1020 180 15 60],
         [mk_gate (mk_rect 1080 620 60 60) ''Tunnels'' (160, 140) None],
         Some (mk_rect 1020 210 80 40))
      else ([], [], None))"

text \<open>The gates of a zone, as \<^verbatim>\<open>build_zone_data\<close> returns them.\<close>

definition zone_gates :: "Settings \<Rightarrow> string \<Rightarrow> ZoneGate list" where
  "zone_gates cfg z = fst (snd (build_zone_data cfg z))"

subsection \<open>game.py: the game state\<close>

text \<open>
  The items of one zone: the dictionary \<^verbatim>\<open>items[zone]\<close> with its optional entries
  \<^verbatim>\<open>"gun"\<close>, \<^verbatim>\<open>"ammo"\<close> (a list, empty when absent), \<^verbatim>\<open>"clue"\<close> and the key entries,
  which are looked up by the key's name.
\<close>

record ZoneItems =
  item_gun :: "Rect option"
  item_ammo :: "Rect list"
  item_clue :: "Rect option"
  item_key :: "string \<Rightarrow> Rect option"

definition no_items :: ZoneItems where
  "no_items = \<lparr>item_gun = None, item_ammo = [], item_clue = None, item_key = (\<lambda>k. None)\<rparr>"

text \<open>
  The fields of \<^verbatim>\<open>Game\<close> that the simulation reads and writes. \<open>sounds\<close> is the log of
  the \<^verbatim>\<open>audio.play_sound\<close> calls made, oldest first; the audio manager has no other
  effect on the game state.
\<close>

record Game =
  zone :: string
  player :: Player
  message :: string
  message_time :: real
  pathway_cooldown :: real
  pathway_hint_cooldown :: real
  victory :: bool
  game_over :: bool
  bullets :: "Bullet list"
  guards :: "string \<Rightarrow> Guard list option"
  npcs :: "NPC list"
  collected :: "string set"
  items :: "string \<Rightarrow> ZoneItems option"
  sounds :: "string list"

definition region_order :: "string list" where
  "region_order = [''Ground'', ''Estate'', ''Tunnels'', ''Harbor'']"

text \<open>\<^verbatim>\<open>list.index\<close>: the first position of a value, \<^verbatim>\<open>ValueError\<close> when it is absent.\<close>

fun index_of :: "string list \<Rightarrow> string \<Rightarrow> nat option" where
  "index_of [] v = None"
| "index_of (a # as) v =
     (if a = v then Some 0 else (case index_of as v of None \<Rightarrow> None | Some i \<Rightarrow> Some (Suc i)))"

subsection \<open>String formatting\<close>

text \<open>\<^verbatim>\<open>str(n)\<close> for an integer, as Python's f-strings print it.\<close>

definition digit_char :: "nat \<Rightarrow> char" where
  "digit_char d = ''0123456789'' ! d"

fun str_nat :: "nat \<Rightarrow> string" where
  "str_nat n = (if n < 10 then [digit_char n] else str_nat (n div 10) @ [digit_char (n mod 10)])"

declare str_nat.simps [simp del]

definition str_int :: "int \<Rightarrow> string" where
  "str_int i = (if i < 0 then CHR ''-'' # str_nat (nat (- i)) else str_nat (nat i))"

text \<open>\<^verbatim>\<open>s.replace('_', ' ')\<close>.\<close>

definition replace_underscore :: "string \<Rightarrow> string" where
  "replace_underscore s = map (\<lambda>c. if c = CHR ''_'' then CHR '' '' else c) s"

subsection \<open>game.py: region tasks\<close>

definition npc_helped :: "string \<Rightarrow> NPC list \<Rightarrow> bool" where
  "npc_helped z ns = list_ex (\<lambda>n. NPC.zone n = z \<and> (following n \<or> rescued n)) ns"

definition current_region_tasks :: "Game \<Rightarrow> (string \<times> bool) list" where
  "current_region_tasks g =
     (if Game.zone g = ''Ground'' then
        [(''Find Ground clue'', ''clue_Ground'' \<in> collected g),
         (''Collect Jail key'', jail_key (keys (player g))),
         (''Get a weapon'', has_gun (player g))]
      else if Game.zone g = ''Estate'' then
        [(''Find Estate clue'', ''clue_Estate'' \<in> collected g),
         (''Collect Cave key'', cave_key (keys (player g))),
         (''Help trapped worker'', npc_helped ''Estate'' (npcs g))]
      else if Game.zone g = ''Tunnels'' then
        [(''Find Tunnel clue'', ''clue_Tunnels'' \<in> collected g),
         (''Collect Boat key'', boat_key (keys (player g))),
         (''Guide tunnel survivor'', npc_helped ''Tunnels'' (npcs g))]
      else
        [(''Bring all clues'', clues (player g) \<ge> 3),
         (''Bring all keys'', keys_all (keys (player g))),
         (''Rescue both survivors'', rescued_npcs (player g) \<ge> 2)])"

definition region_complete :: "Game \<Rightarrow> string \<Rightarrow> bool" where
  "region_complete g z =
     (if Game.zone g = z then list_all snd (current_region_tasks g) else False)"

subsection \<open>game.py: the guard pass of Game.update\<close>

text \<open>
  The loop over \<^verbatim>\<open>list(self.guards[self.zone])\<close>: each guard of the snapshot is updated
  in place, its bullet (if any) is appended, and the guard is removed from the live
  list when its health is at most zero. The result is the live list, the bullets
  appended, the \<open>any_alert\<close> flag and the exception that ended the loop, if one did.
\<close>

fun guards_loop ::
  "real \<Rightarrow> Player \<Rightarrow> Rect list \<Rightarrow> Guard list \<Rightarrow>
     Guard list \<times> Bullet list \<times> bool \<times> py_error option" where
  "guards_loop dt pl obstacles [] = ([], [], False, None)"
| "guards_loop dt pl obstacles (g # gs) =
     (case snd (Guard_update dt pl obstacles g) of
        Inl e \<Rightarrow> (fst (Guard_update dt pl obstacles g) # gs, [], False, Some e)
      | Inr shot \<Rightarrow>
          (let g' = fst (Guard_update dt pl obstacles g);
               (gs', bs, al, err) = guards_loop dt pl obstacles gs
           in ((if Guard.health g' \<le> 0 then gs' else g' # gs'),
               (case shot of Some b \<Rightarrow> b # bs | None \<Rightarrow> bs),
               alerted g' \<or> al,
               err)))"

definition update_guards :: "real \<Rightarrow> Rect list \<Rightarrow> Game \<Rightarrow> py_error + Game \<times> bool" where
  "update_guards dt obstacles g =
     (case guards g (Game.zone g) of
        None \<Rightarrow> Inl KeyError
      | Some gl \<Rightarrow>
          (case guards_loop dt (player g) obstacles gl of
             (gl', bs, al, Some e) \<Rightarrow> Inl e
           | (gl', bs, al, None) \<Rightarrow>
               Inr (g\<lparr>guards := (guards g)(Game.zone g := Some gl'), bullets := bullets g @ bs\<rparr>, al)))"

subsection \<open>game.py: gates and followers\<close>

text \<open>
  \<^verbatim>\<open>transfer_followers\<close>: the loop over the NPCs carries the count of followers moved
  so far; each is placed relative to the player's rectangle as it is when the function
  is called.
\<close>

fun transfer_loop :: "string \<Rightarrow> string \<Rightarrow> Rect \<Rightarrow> nat \<Rightarrow> NPC list \<Rightarrow> NPC list \<times> nat" where
  "transfer_loop cur new pr k [] = ([], k)"
| "transfer_loop cur new pr k (n # ns) =
     (if following n \<and> \<not> rescued n \<and> NPC.zone n = cur then
        (let n' = n\<lparr>NPC.zone := new,
                     rect := set_center (rect_centerx pr + (- 40 - int k * 20), rect_centery pr + 20)
                               (rect n)\<rparr>;
             (ns', k') = transfer_loop cur new pr (Suc k) ns
         in (n' # ns', k'))
      else
        (let (ns', k') = transfer_loop cur new pr k ns in (n # ns', k')))"

definition transfer_followers :: "string \<Rightarrow> Game \<Rightarrow> Game" where
  "transfer_followers new_zone g =
     (let (ns, k) = transfer_loop (Game.zone g) new_zone (rect (player g)) 0 (npcs g);
          g1 = g\<lparr>npcs := ns\<rparr>
      in if k > 0 then
           g1\<lparr>message := str_nat k @ '' survivor(s) followed you through the portal'',
               message_time := 2\<rparr>
         else g1)"

text \<open>
  The key a gate is locked by: \<^verbatim>\<open>gate.required_key and not keys.get(gate.required_key, False)\<close>
  holds when the gate names a (non-empty) key that the player does not hold.
\<close>

definition locked_by :: "ZoneGate \<Rightarrow> Game \<Rightarrow> string option" where
  "locked_by gate g =
     (case required_key gate of
        None \<Rightarrow> None
      | Some k \<Rightarrow> if k \<noteq> [] \<and> \<not> keys_get (keys (player g)) k False then Some k else None)"

definition pass_gate :: "ZoneGate \<Rightarrow> Game \<Rightarrow> Game" where
  "pass_gate gate g =
     (let g1 = transfer_followers (target_zone gate) g;
          g2 = g1\<lparr>Game.zone := target_zone gate\<rparr>;
          g3 = g2\<lparr>player := (player g2)\<lparr>rect := set_topleft (spawn gate) (rect (player g2))\<rparr>\<rparr>;
          g4 = (if Game.zone g3 = ''Harbor'' \<and> rect_centery (rect (player g3)) < 300
                then g3\<lparr>player := (player g3)\<lparr>rect := set_centery 400 (rect (player g3))\<rparr>\<rparr>
                else g3);
          g5 = g4\<lparr>pathway_cooldown := 0.7\<rparr>;
          g6 = g5\<lparr>sounds := sounds g5 @ [''door'']\<rparr>
      in g6\<lparr>message := ''Entered '' @ Game.zone g6\<rparr>)"

text \<open>
  A blocked gate shows its hint at most once per second: the message is set only when
  \<open>pathway_hint_cooldown\<close> has run out, and the cooldown is then set to one second.
\<close>

definition show_hint :: "string \<Rightarrow> Game \<Rightarrow> Game" where
  "show_hint msg g =
     (if pathway_hint_cooldown g \<le> 0 then g\<lparr>message := msg, pathway_hint_cooldown := 1\<rparr> else g)"

text \<open>
  The loop over the gates in \<^verbatim>\<open>Game.update\<close>: \<^verbatim>\<open>break\<close> ends the recursion,
  \<^verbatim>\<open>continue\<close> goes on with the remaining gates.
\<close>

fun update_gates :: "ZoneGate list \<Rightarrow> Game \<Rightarrow> py_error + Game" where
  "update_gates [] g = Inr g"
| "update_gates (gate # rest) g =
     (if pathway_cooldown g > 0 then Inr g
      else if colliderect (rect (player g)) (gate_rect gate) then
        (case locked_by gate g of
           Some k \<Rightarrow>
             update_gates rest (show_hint (''Pathway locked: requires '' @ replace_underscore k) g)
         | None \<Rightarrow>
           (case index_of region_order (Game.zone g) of
              None \<Rightarrow> Inl ValueError
            | Some current_idx \<Rightarrow>
                (case index_of region_order (target_zone gate) of
                   None \<Rightarrow> Inl ValueError
                 | Some target_idx \<Rightarrow>
                     if target_idx > current_idx \<and> \<not> region_complete g (Game.zone g) then
                       update_gates rest (show_hint ''Complete this region's tasks first.'' g)
                     else Inr (pass_gate gate g))))
      else update_gates rest g)"

text \<open>Whether a gate leads to a zone later in \<open>region_order\<close> than the current one.\<close>

definition leads_forward :: "ZoneGate \<Rightarrow> Game \<Rightarrow> bool" where
  "leads_forward gate g =
     (case (index_of region_order (Game.zone g), index_of region_order (target_zone gate)) of
        (Some current_idx, Some target_idx) \<Rightarrow> target_idx > current_idx
      | _ \<Rightarrow> False)"

subsection \<open>game.py: the extraction check of Game.update\<close>

definition ready_to_leave :: "Player \<Rightarrow> bool" where
  "ready_to_leave p \<longleftrightarrow> clues p \<ge> 3 \<and> keys_all (keys p) \<and> rescued_npcs p \<ge> 2"

definition update_extraction :: "Rect option \<Rightarrow> Game \<Rightarrow> Game" where
  "update_extraction extraction g =
     (case extraction of
        None \<Rightarrow> g
      | Some e \<Rightarrow>
          if (rw e \<noteq> 0 \<and> rh e \<noteq> 0) \<and> colliderect (rect (player g)) e then
            (if ready_to_leave (player g)
             then g\<lparr>victory := True, sounds := sounds g @ [''victory'']\<rparr>
             else g\<lparr>message := ''Not ready: need all clues, keys, and rescued survivors.''\<rparr>)
          else g)"

text \<open>
  The last statement of \<^verbatim>\<open>Game.update\<close> runs the message timer down, and \<^verbatim>\<open>Game.draw\<close>
  renders the message only while the timer is positive: \<open>draw_message\<close> is the text on
  screen, if any.
\<close>

definition update_message_time :: "real \<Rightarrow> Game \<Rightarrow> Game" where
  "update_message_time dt g = g\<lparr>message_time := max 0 (message_time g - dt)\<rparr>"

definition draw_message :: "Game \<Rightarrow> string option" where
  "draw_message g = (if message_time g > 0 then Some (message g) else None)"

subsection \<open>game.py: Game.interact\<close>

text \<open>
  \<^verbatim>\<open>interact\<close> runs five stages in order: gun, ammo boxes, clue, keys, NPCs. Each
  stage takes and returns the game together with the local flag \<open>collected_anything\<close>.
  \<^verbatim>\<open>self.player.keys[k]\<close> is read for the three key names only, which the dictionary
  always holds, so the read cannot fail.
\<close>

definition ammo_id :: "string \<Rightarrow> nat \<Rightarrow> string" where
  "ammo_id z idx = ''ammo_'' @ z @ ''_'' @ str_nat idx"

definition clue_id :: "string \<Rightarrow> string" where
  "clue_id z = ''clue_'' @ z"

definition interact_gun :: "ZoneItems \<Rightarrow> Game \<times> bool \<Rightarrow> Game \<times> bool" where
  "interact_gun its s =
     (let g = fst s in
      case item_gun its of
        None \<Rightarrow> s
      | Some r \<Rightarrow>
          if colliderect (rect (player g)) r \<and> ''gun'' \<notin> collected g then
            (g\<lparr>collected := insert ''gun'' (collected g),
               player := (player g)\<lparr>has_gun := True, ammo := ammo (player g) + 20\<rparr>,
               message := ''You found a pistol with 20 ammo.''\<rparr>, True)
          else s)"

definition ammo_step :: "Game \<times> bool \<Rightarrow> nat \<times> Rect \<Rightarrow> Game \<times> bool" where
  "ammo_step s ib =
     (let g = fst s; key = ammo_id (Game.zone g) (fst ib) in
      if colliderect (rect (player g)) (snd ib) \<and> key \<notin> collected g then
        (g\<lparr>collected := insert key (collected g),
           player := (player g)\<lparr>ammo := ammo (player g) + 12\<rparr>,
           message := ''Picked up ammo (+12).''\<rparr>, True)
      else s)"

definition interact_ammo :: "ZoneItems \<Rightarrow> Game \<times> bool \<Rightarrow> Game \<times> bool" where
  "interact_ammo its s = foldl ammo_step s (enumerate 0 (item_ammo its))"

definition interact_clue :: "ZoneItems \<Rightarrow> Game \<times> bool \<Rightarrow> Game \<times> bool" where
  "interact_clue its s =
     (let g = fst s in
      case item_clue its of
        None \<Rightarrow> s
      | Some r \<Rightarrow>
          if colliderect (rect (player g)) r \<and> clue_id (Game.zone g) \<notin> collected g then
            (let g1 = g\<lparr>collected := insert (clue_id (Game.zone g)) (collected g),
                        player := (player g)\<lparr>clues := clues (player g) + 1\<rparr>\<rparr>
             in (g1\<lparr>message := ''Clue found ('' @ str_int (clues (player g1)) @ ''/3).''\<rparr>, True))
          else s)"

definition key_step :: "ZoneItems \<Rightarrow> Game \<times> bool \<Rightarrow> string \<Rightarrow> Game \<times> bool" where
  "key_step its s k =
     (let g = fst s in
      case item_key its k of
        None \<Rightarrow> s
      | Some r \<Rightarrow>
          if colliderect (rect (player g)) r \<and> \<not> keys_get (keys (player g)) k False then
            (g\<lparr>player := (player g)\<lparr>keys := keys_set_true k (keys (player g))\<rparr>,
               message := ''Collected '' @ replace_underscore k @ ''.''\<rparr>, True)
          else s)"

definition interact_keys :: "ZoneItems \<Rightarrow> Game \<times> bool \<Rightarrow> Game \<times> bool" where
  "interact_keys its s = foldl (key_step its) s [''jail_key'', ''cave_key'', ''boat_key'']"

fun npcs_loop :: "string \<Rightarrow> Rect \<Rightarrow> NPC list \<Rightarrow> NPC list \<times> bool" where
  "npcs_loop z pr [] = ([], False)"
| "npcs_loop z pr (n # ns) =
     (let (ns', hit) = npcs_loop z pr ns in
      if NPC.zone n = z \<and> \<not> following n \<and> \<not> rescued n \<and> colliderect pr (inflate 24 24 (rect n))
      then (n\<lparr>following := True\<rparr> # ns', True)
      else (n # ns', hit))"

definition interact_npcs :: "Game \<times> bool \<Rightarrow> Game \<times> bool" where
  "interact_npcs s =
     (let g = fst s;
          (ns, hit) = npcs_loop (Game.zone g) (rect (player g)) (npcs g)
      in if hit then (g\<lparr>npcs := ns, message := ''Survivor is now following you.''\<rparr>, True)
         else s)"

text \<open>\<^verbatim>\<open>self.items.get(self.zone, {})\<close>.\<close>

definition zone_items_of :: "Game \<Rightarrow> ZoneItems" where
  "zone_items_of g = (case items g (Game.zone g) of None \<Rightarrow> no_items | Some i \<Rightarrow> i)"

definition interact :: "Game \<Rightarrow> Game" where
  "interact g =
     (let its = zone_items_of g;
          s = interact_npcs (interact_keys its (interact_clue its (interact_ammo its
                (interact_gun its (g, False)))));
          g' = fst s
      in if snd s then g'\<lparr>sounds := sounds g' @ [''item_pickup''], message_time := 2\<rparr> else g')"

subsection \<open>levels.py: build_items, and a round at its start\<close>

definition zone_items :: "Rect option \<Rightarrow> Rect list \<Rightarrow> Rect option \<Rightarrow> (string \<times> Rect) list \<Rightarrow> ZoneItems" where
  "zone_items g a c ks = \<lparr>item_gun = g, item_ammo = a, item_clue = c, item_key = map_of ks\<rparr>"

definition build_items :: "string \<Rightarrow> ZoneItems option" where
  "build_items z =
     (if z = ''Ground'' then
        Some (zone_items (Some (mk_rect 200 550 24 12))
                [mk_rect 300 200 16 10, mk_rect 800 500 16 10]
                (Some (mk_rect 400 300 20 14))
                [(''jail_key'', mk_rect 500 400 18 12)])
      else if z = ''Estate'' then
        Some (zone_items None [mk_rect 300 350 16 10] (Some (mk_rect 250 250 20 14))
                [(''cave_key'', mk_rect 700 400 18 12)])
      else if z = ''Tunnels'' then
        Some (zone_items None [mk_rect 600 350 16 10, mk_rect 300 500 16 10]
                (Some (mk_rect 500 200 20 14))
                [(''boat_key'', mk_rect 800 200 18 12)])
      else if z = ''Harbor'' then Some no_items
      else None)"

text \<open>
  The state \<^verbatim>\<open>reset_round\<close> sets up, with the items where \<^verbatim>\<open>build_items\<close> puts them (the
  source then moves them to random places) and no guards; it serves as a concrete
  state to evaluate the functions on.
\<close>

definition round_start :: "Settings \<Rightarrow> DifficultyProfile \<Rightarrow> Game" where
  "round_start cfg prof =
     \<lparr>zone = ''Ground'',
      player = Player_init cfg 100 550 prof,
      message = ''Difficulty: '' @ name prof @ ''. Escape the island!'',
      message_time = 3,
      pathway_cooldown = 0,
      pathway_hint_cooldown = 0,
      victory = False,
      game_over = False,
      bullets = [],
      guards = (\<lambda>z. if z \<in> set region_order then Some [] else None),
      npcs = [NPC_init 350 300 ''Estate'', NPC_init 500 350 ''Tunnels''],
      collected = {},
      items = build_items,
      sounds = []\<rparr>"

text \<open>
  A state late in a round: the player has come through the three regions with the gun,
  the three clues and the three keys, stands on the boat in the Harbor clear of the
  walls, one survivor has reached the boat and been counted, the other is still on the
  way, and the last message (set on entering the Harbor) has timed out.
\<close>

definition on_boat_one_rescued :: Game where
  "on_boat_one_rescued =
     (round_start sample_settings Story)
       \<lparr>Game.zone := ''Harbor'',
        player := (Player_init sample_settings 1040 230 Story)
          \<lparr>has_gun := True, ammo := 20, clues := 3, rescued_npcs := 1,
           keys := \<lparr>jail_key = True, cave_key = True, boat_key = True\<rparr>\<rparr>,
        message := ''Entered Harbor'',
        message_time := 0,
        npcs := [(NPC_init 1030 260 ''Harbor'')\<lparr>following := True, rescued := True\<rparr>,
                 (NPC_init 980 250 ''Harbor'')\<lparr>following := True\<rparr>],
        collected := {''gun'', ''clue_Ground'', ''clue_Estate'', ''clue_Tunnels''}\<rparr>"

text \<open>
  What a call of \<^verbatim>\<open>interact\<close> can collect, read off the state before the call: an item
  is collectable when the player overlaps its rectangle and its identifier is not in the
  collected set.
\<close>

definition gun_collectable :: "Game \<Rightarrow> bool" where
  "gun_collectable g =
     (case item_gun (zone_items_of g) of
        None \<Rightarrow> False
      | Some r \<Rightarrow> colliderect (rect (player g)) r \<and> ''gun'' \<notin> collected g)"

definition ammo_pick :: "Game \<Rightarrow> nat \<times> Rect \<Rightarrow> bool" where
  "ammo_pick g ib \<longleftrightarrow>
     colliderect (rect (player g)) (snd ib) \<and> ammo_id (Game.zone g) (fst ib) \<notin> collected g"

definition ammo_collectable :: "Game \<Rightarrow> (nat \<times> Rect) list" where
  "ammo_collectable g = filter (ammo_pick g) (enumerate 0 (item_ammo (zone_items_of g)))"

definition clue_collectable :: "Game \<Rightarrow> bool" where
  "clue_collectable g =
     (case item_clue (zone_items_of g) of
        None \<Rightarrow> False
      | Some r \<Rightarrow> colliderect (rect (player g)) r \<and> clue_id (Game.zone g) \<notin> collected g)"

text \<open>Whether the zone has the named key item under the player.\<close>

definition key_reachable :: "ZoneItems \<Rightarrow> Game \<Rightarrow> string \<Rightarrow> bool" where
  "key_reachable its g k =
     (case item_key its k of None \<Rightarrow> False | Some r \<Rightarrow> colliderect (rect (player g)) r)"


text \<open>The part of the state that the pickup stages read but never write.\<close>

definition same_place :: "Game \<Rightarrow> Game \<Rightarrow> bool" where
  "same_place g g' \<longleftrightarrow>
     Game.zone g' = Game.zone g \<and> items g' = items g \<and> rect (player g') = rect (player g)"

section \<open>Properties\<close>

subsection \<open>Evaluating rectangles\<close>

lemma colliderect_mk:
  "colliderect (mk_rect a b c d) (mk_rect a' b' c' d') \<longleftrightarrow>
     c \<noteq> 0 \<and> d \<noteq> 0 \<and> c' \<noteq> 0 \<and> d' \<noteq> 0 \<and>
     min a (a + c) < max a' (a' + c') \<and> min b (b + d) < max b' (b' + d') \<and>
     max a (a + c) > min a' (a' + c') \<and> max b (b + d) > min b' (b' + d')"
  by (simp add: colliderect_def mk_rect_def)

lemma resolve_x_mk:
  "resolve_x vx (mk_rect a b c d) (mk_rect a' b' c' d') =
     (if colliderect (mk_rect a b c d) (mk_rect a' b' c' d') then
        (if vx > 0 then mk_rect (a' - c) b c d else if vx < 0 then mk_rect (a' + c') b c d
         else mk_rect a b c d)
      else mk_rect a b c d)"
  by (simp add: resolve_x_def set_right_def set_left_def rect_left_def rect_right_def mk_rect_def)

lemma resolve_y_mk:
  "resolve_y vy (mk_rect a b c d) (mk_rect a' b' c' d') =
     (if colliderect (mk_rect a b c d) (mk_rect a' b' c' d') then
        (if vy > 0 then mk_rect a (b' - d) c d else if vy < 0 then mk_rect a (b' + d') c d
         else mk_rect a b c d)
      else mk_rect a b c d)"
  by (simp add: resolve_y_def set_bottom_def set_top_def rect_top_def rect_bottom_def mk_rect_def)

lemma shift_mk:
  "shift_x e (mk_rect a b c d) = mk_rect (a + e) b c d"
  "shift_y e (mk_rect a b c d) = mk_rect a (b + e) c d"
  by (simp_all add: shift_x_def shift_y_def mk_rect_def)

lemma mk_sel: "rx (mk_rect a b c d) = a" "ry (mk_rect a b c d) = b" "rw (mk_rect a b c d) = c" "rh (mk_rect a b c d) = d"
  by (simp_all add: mk_rect_def)

lemma py_int_of_int: "py_int (real_of_int n) = n"
  by (simp add: py_int_def)


subsection \<open>Axis-separated collision\<close>

lemma resolve_x_dims: "rw (resolve_x v r w) = rw r \<and> rh (resolve_x v r w) = rh r \<and> ry (resolve_x v r w) = ry r"
  by (simp add: resolve_x_def set_right_def set_left_def)

lemma foldl_resolve_x_dims:
  "rw (foldl (resolve_x v) r ws) = rw r \<and> rh (foldl (resolve_x v) r ws) = rh r
   \<and> ry (foldl (resolve_x v) r ws) = ry r"
  by (induction ws arbitrary: r) (simp_all add: resolve_x_dims)

lemma x_pass_right:
  assumes "0 < vx" and "0 < rw r0" and "0 < rh r0"
    and "\<forall>w\<in>set ws. 0 < rw w \<and> 0 < rh w \<and> \<not> colliderect r0 w"
    and "ry r = ry r0" "rw r = rw r0" "rh r = rh r0"
    and "rx r0 \<le> rx r" "rx r \<le> rx r0 + rw r0"
  shows "rx r0 \<le> rx (foldl (resolve_x vx) r ws) \<and> rx (foldl (resolve_x vx) r ws) \<le> rx r
       \<and> (\<forall>w\<in>set ws. \<not> colliderect (foldl (resolve_x vx) r ws) w)"
  using assms(4-)
proof (induction ws arbitrary: r)
  case Nil
  then show ?case by simp
next
  case (Cons w ws)
  let ?r1 = "resolve_x vx r w"
  have w: "0 < rw w" "0 < rh w" "\<not> colliderect r0 w" using Cons.prems(1) by auto
  have d1: "ry ?r1 = ry r0" "rw ?r1 = rw r0" "rh ?r1 = rh r0"
    using Cons.prems by (simp_all add: resolve_x_dims)
  have b1: "rx r0 \<le> rx ?r1 \<and> rx ?r1 \<le> rx r \<and> \<not> colliderect ?r1 w"
    using w Cons.prems(2-) assms(1-3)
    by (auto simp add: resolve_x_def set_right_def rect_left_def colliderect_def)
  have ih: "rx r0 \<le> rx (foldl (resolve_x vx) ?r1 ws) \<and> rx (foldl (resolve_x vx) ?r1 ws) \<le> rx ?r1
       \<and> (\<forall>w\<in>set ws. \<not> colliderect (foldl (resolve_x vx) ?r1 ws) w)"
    using Cons.IH[of ?r1] Cons.prems d1 b1 by auto
  let ?r' = "foldl (resolve_x vx) ?r1 ws"
  have d': "ry ?r' = ry r0" "rw ?r' = rw r0" "rh ?r' = rh r0"
    using d1 by (simp_all add: foldl_resolve_x_dims)
  have "\<not> colliderect ?r' w"
    using w b1 ih d' d1 assms(1-3) Cons.prems(2-)
    by (auto simp add: colliderect_def)
  then show ?case using ih b1 by auto
qed
lemma x_pass_left:
  assumes "vx < 0" and "0 < rw r0" and "0 < rh r0"
    and "\<forall>w\<in>set ws. 0 < rw w \<and> 0 < rh w \<and> \<not> colliderect r0 w"
    and "ry r = ry r0" "rw r = rw r0" "rh r = rh r0"
    and "rx r \<le> rx r0" "rx r0 - rw r0 \<le> rx r"
  shows "rx r \<le> rx (foldl (resolve_x vx) r ws) \<and> rx (foldl (resolve_x vx) r ws) \<le> rx r0
       \<and> (\<forall>w\<in>set ws. \<not> colliderect (foldl (resolve_x vx) r ws) w)"
  using assms(4-)
proof (induction ws arbitrary: r)
  case Nil
  then show ?case by simp
next
  case (Cons w ws)
  let ?r1 = "resolve_x vx r w"
  have w: "0 < rw w" "0 < rh w" "\<not> colliderect r0 w" using Cons.prems(1) by auto
  have d1: "ry ?r1 = ry r0" "rw ?r1 = rw r0" "rh ?r1 = rh r0"
    using Cons.prems by (simp_all add: resolve_x_dims)
  have b1: "rx r \<le> rx ?r1 \<and> rx ?r1 \<le> rx r0 \<and> \<not> colliderect ?r1 w"
    using w Cons.prems(2-) assms(1-3)
    by (auto simp add: resolve_x_def set_left_def rect_right_def colliderect_def)
  have ih: "rx ?r1 \<le> rx (foldl (resolve_x vx) ?r1 ws) \<and> rx (foldl (resolve_x vx) ?r1 ws) \<le> rx r0
       \<and> (\<forall>w\<in>set ws. \<not> colliderect (foldl (resolve_x vx) ?r1 ws) w)"
    using Cons.IH[of ?r1] Cons.prems d1 b1 by auto
  let ?r' = "foldl (resolve_x vx) ?r1 ws"
  have d': "ry ?r' = ry r0" "rw ?r' = rw r0" "rh ?r' = rh r0"
    using d1 by (simp_all add: foldl_resolve_x_dims)
  have "\<not> colliderect ?r' w"
    using w b1 ih d' d1 assms(1-3) Cons.prems(2-)
    by (auto simp add: colliderect_def)
  then show ?case using ih b1 by auto
qed
lemma resolve_y_dims: "rw (resolve_y v r w) = rw r \<and> rh (resolve_y v r w) = rh r \<and> rx (resolve_y v r w) = rx r"
  by (simp add: resolve_y_def set_bottom_def set_top_def)

lemma foldl_resolve_y_dims:
  "rw (foldl (resolve_y v) r ws) = rw r \<and> rh (foldl (resolve_y v) r ws) = rh r
   \<and> rx (foldl (resolve_y v) r ws) = rx r"
  by (induction ws arbitrary: r) (simp_all add: resolve_y_dims)

lemma y_pass_down:
  assumes "0 < vy" and "0 < rw r0" and "0 < rh r0"
    and "\<forall>w\<in>set ws. 0 < rw w \<and> 0 < rh w \<and> \<not> colliderect r0 w"
    and "rx r = rx r0" "rw r = rw r0" "rh r = rh r0"
    and "ry r0 \<le> ry r" "ry r \<le> ry r0 + rh r0"
  shows "ry r0 \<le> ry (foldl (resolve_y vy) r ws) \<and> ry (foldl (resolve_y vy) r ws) \<le> ry r
       \<and> (\<forall>w\<in>set ws. \<not> colliderect (foldl (resolve_y vy) r ws) w)"
  using assms(4-)
proof (induction ws arbitrary: r)
  case Nil
  then show ?case by simp
next
  case (Cons w ws)
  let ?r1 = "resolve_y vy r w"
  have w: "0 < rw w" "0 < rh w" "\<not> colliderect r0 w" using Cons.prems(1) by auto
  have d1: "rx ?r1 = rx r0" "rw ?r1 = rw r0" "rh ?r1 = rh r0"
    using Cons.prems by (simp_all add: resolve_y_dims)
  have b1: "ry r0 \<le> ry ?r1 \<and> ry ?r1 \<le> ry r \<and> \<not> colliderect ?r1 w"
    using w Cons.prems(2-) assms(1-3)
    by (auto simp add: resolve_y_def set_bottom_def rect_top_def colliderect_def)
  have ih: "ry r0 \<le> ry (foldl (resolve_y vy) ?r1 ws) \<and> ry (foldl (resolve_y vy) ?r1 ws) \<le> ry ?r1
       \<and> (\<forall>w\<in>set ws. \<not> colliderect (foldl (resolve_y vy) ?r1 ws) w)"
    using Cons.IH[of ?r1] Cons.prems d1 b1 by auto
  let ?r' = "foldl (resolve_y vy) ?r1 ws"
  have d': "rx ?r' = rx r0" "rw ?r' = rw r0" "rh ?r' = rh r0"
    using d1 by (simp_all add: foldl_resolve_y_dims)
  have "\<not> colliderect ?r' w"
    using w b1 ih d' d1 assms(1-3) Cons.prems(2-)
    by (auto simp add: colliderect_def)
  then show ?case using ih b1 by auto
qed
lemma y_pass_up:
  assumes "vy < 0" and "0 < rw r0" and "0 < rh r0"
    and "\<forall>w\<in>set ws. 0 < rw w \<and> 0 < rh w \<and> \<not> colliderect r0 w"
    and "rx r = rx r0" "rw r = rw r0" "rh r = rh r0"
    and "ry r \<le> ry r0" "ry r0 - rh r0 \<le> ry r"
  shows "ry r \<le> ry (foldl (resolve_y vy) r ws) \<and> ry (foldl (resolve_y vy) r ws) \<le> ry r0
       \<and> (\<forall>w\<in>set ws. \<not> colliderect (foldl (resolve_y vy) r ws) w)"
  using assms(4-)
proof (induction ws arbitrary: r)
  case Nil
  then show ?case by simp
next
  case (Cons w ws)
  let ?r1 = "resolve_y vy r w"
  have w: "0 < rw w" "0 < rh w" "\<not> colliderect r0 w" using Cons.prems(1) by auto
  have d1: "rx ?r1 = rx r0" "rw ?r1 = rw r0" "rh ?r1 = rh r0"
    using Cons.prems by (simp_all add: resolve_y_dims)
  have b1: "ry r \<le> ry ?r1 \<and> ry ?r1 \<le> ry r0 \<and> \<not> colliderect ?r1 w"
    using w Cons.prems(2-) assms(1-3)
    by (auto simp add: resolve_y_def set_top_def rect_bottom_def colliderect_def)
  have ih: "ry ?r1 \<le> ry (foldl (resolve_y vy) ?r1 ws) \<and> ry (foldl (resolve_y vy) ?r1 ws) \<le> ry r0
       \<and> (\<forall>w\<in>set ws. \<not> colliderect (foldl (resolve_y vy) ?r1 ws) w)"
    using Cons.IH[of ?r1] Cons.prems d1 b1 by auto
  let ?r' = "foldl (resolve_y vy) ?r1 ws"
  have d': "rx ?r' = rx r0" "rw ?r' = rw r0" "rh ?r' = rh r0"
    using d1 by (simp_all add: foldl_resolve_y_dims)
  have "\<not> colliderect ?r' w"
    using w b1 ih d' d1 assms(1-3) Cons.prems(2-)
    by (auto simp add: colliderect_def)
  then show ?case using ih b1 by auto
qed

lemma x_pass_zero: "foldl (resolve_x 0) r ws = r"
  by (induction ws) (simp_all add: resolve_x_def)

lemma y_pass_zero: "foldl (resolve_y 0) r ws = r"
  by (induction ws) (simp_all add: resolve_y_def)

lemma py_int_pos: "0 < f \<Longrightarrow> 0 \<le> py_int f"
  by (simp add: py_int_def)

lemma py_int_neg: "f < 0 \<Longrightarrow> py_int f \<le> 0"
  by (simp add: py_int_def)

lemma py_int_zero: "py_int 0 = 0"
  by (simp add: py_int_def)

lemma x_pass_free:
  assumes "0 < rw r0" and "0 < rh r0"
    and "\<forall>w\<in>set ws. 0 < rw w \<and> 0 < rh w \<and> \<not> colliderect r0 w"
    and "\<bar>py_int vx\<bar> \<le> rw r0"
  shows "\<forall>w\<in>set ws. \<not> colliderect (foldl (resolve_x vx) (shift_x (py_int vx) r0) ws) w"
proof -
  consider "0 < vx" | "vx < 0" | "vx = 0" by linarith
  then show ?thesis
  proof cases
    case 1
    then show ?thesis
      using x_pass_right[of vx r0 ws "shift_x (py_int vx) r0"] assms py_int_pos[of vx]
      by (simp add: shift_x_def)
  next
    case 2
    then show ?thesis
      using x_pass_left[of vx r0 ws "shift_x (py_int vx) r0"] assms py_int_neg[of vx]
      by (simp add: shift_x_def)
  next
    case 3
    then show ?thesis using assms(3) by (simp add: x_pass_zero py_int_zero shift_x_def)
  qed
qed

lemma y_pass_free:
  assumes "0 < rw r0" and "0 < rh r0"
    and "\<forall>w\<in>set ws. 0 < rw w \<and> 0 < rh w \<and> \<not> colliderect r0 w"
    and "\<bar>py_int vy\<bar> \<le> rh r0"
  shows "\<forall>w\<in>set ws. \<not> colliderect (foldl (resolve_y vy) (shift_y (py_int vy) r0) ws) w"
proof -
  consider "0 < vy" | "vy < 0" | "vy = 0" by linarith
  then show ?thesis
  proof cases
    case 1
    then show ?thesis
      using y_pass_down[of vy r0 ws "shift_y (py_int vy) r0"] assms py_int_pos[of vy]
      by (simp add: shift_y_def)
  next
    case 2
    then show ?thesis
      using y_pass_up[of vy r0 ws "shift_y (py_int vy) r0"] assms py_int_neg[of vy]
      by (simp add: shift_y_def)
  next
    case 3
    then show ?thesis using assms(3) by (simp add: y_pass_zero py_int_zero shift_y_def)
  qed
qed

lemma move_rect_free:
  assumes "0 < rw r0" and "0 < rh r0"
    and "\<forall>w\<in>set ws. 0 < rw w \<and> 0 < rh w \<and> \<not> colliderect r0 w"
    and "\<bar>py_int (fst v)\<bar> \<le> rw r0" and "\<bar>py_int (snd v)\<bar> \<le> rh r0"
  shows "\<forall>w\<in>set ws. \<not> colliderect (move_rect v ws r0) w"
proof -
  let ?r2 = "foldl (resolve_x (fst v)) (shift_x (py_int (fst v)) r0) ws"
  have free2: "\<forall>w\<in>set ws. \<not> colliderect ?r2 w"
    using x_pass_free[OF assms(1-4)] .
  have dims2: "rw ?r2 = rw r0" "rh ?r2 = rh r0"
    by (simp_all add: foldl_resolve_x_dims shift_x_def)
  have "\<forall>w\<in>set ws. \<not> colliderect (foldl (resolve_y (snd v)) (shift_y (py_int (snd v)) ?r2) ws) w"
    using y_pass_free[of ?r2 ws "snd v"] assms free2 dims2 by simp
  then show ?thesis by (simp add: move_rect_def Let_def)
qed


text \<open>
  C5 (as stated, refuted). The claim promises that after \<^verbatim>\<open>move_and_collide\<close> the entity
  overlaps no obstacle, for every obstacle list and every velocity. A clamp against one
  wall can push the rectangle back into a wall the loop has already passed. In the first
  scene the entity starts clear of three walls, moves by \<open>(45, 1)\<close>, a step longer than
  itself, and ends inside the first wall. In the second it starts inside the third wall,
  moves by \<open>(1, -1)\<close>, and ends inside the first.
\<close>

theorem move_and_collide_counterexample:
  "\<not> colliderect (mk_rect 0 100 10 10) (mk_rect 0 70 100 15)
   \<and> \<not> colliderect (mk_rect 0 100 10 10) (mk_rect 20 90 25 30)
   \<and> \<not> colliderect (mk_rect 0 100 10 10) (mk_rect 50 90 10 30)
   \<and> rect (move_and_collide [mk_rect 0 70 100 15, mk_rect 20 90 25 30, mk_rect 50 90 10 30]
        \<lparr>rect = mk_rect 0 100 10 10, vel = (45, 1), look_dir = (1, 0), muzzle_timer = 0\<rparr>)
      = mk_rect 40 80 10 10
   \<and> colliderect (mk_rect 40 80 10 10) (mk_rect 0 70 100 15)
   \<and> colliderect (mk_rect 12 0 5 5) (mk_rect 10 0 10 10)
   \<and> rect (move_and_collide [mk_rect 0 10 20 10, mk_rect 0 0 10 10, mk_rect 10 0 10 10]
        \<lparr>rect = mk_rect 12 0 5 5, vel = (1, - 1), look_dir = (1, 0), muzzle_timer = 0\<rparr>)
      = mk_rect 5 10 5 5
   \<and> colliderect (mk_rect 5 10 5 5) (mk_rect 0 10 20 10)"
  using py_int_of_int[of 45] py_int_of_int[of 1] py_int_of_int[of "- 1"]
  by (simp add: move_and_collide_def move_rect_def shift_mk resolve_x_mk resolve_y_mk
      colliderect_mk mk_sel)

text \<open>
  C5 (amended). \<^verbatim>\<open>move_and_collide\<close> moves along X and resolves against every obstacle
  in list order, then does the same along Y. If the entity and the obstacles have
  positive size, the entity starts clear of every obstacle, and the step taken on each
  axis is no longer than the entity's size on that axis, then the entity ends the step
  overlapping no obstacle.
\<close>

theorem move_and_collide_no_overlap:
  assumes "0 < rw (rect c)" and "0 < rh (rect c)"
    and "\<forall>w\<in>set obstacles. 0 < rw w \<and> 0 < rh w \<and> \<not> colliderect (rect c) w"
    and "\<bar>py_int (fst (vel c))\<bar> \<le> rw (rect c)" and "\<bar>py_int (snd (vel c))\<bar> \<le> rh (rect c)"
  shows "rect (move_and_collide obstacles c) =
           foldl (resolve_y (snd (vel c)))
             (shift_y (py_int (snd (vel c)))
               (foldl (resolve_x (fst (vel c))) (shift_x (py_int (fst (vel c))) (rect c)) obstacles))
             obstacles
       \<and> (\<forall>w\<in>set obstacles. \<not> colliderect (rect (move_and_collide obstacles c)) w)"
  using move_rect_free[OF assms] by (simp add: move_and_collide_def move_rect_def Let_def)

theorem move_and_collide_no_overlap_witness:
  "rect (move_and_collide [mk_rect 12 0 10 50, mk_rect 0 12 50 10]
        \<lparr>rect = mk_rect 0 0 10 10, vel = (3, 3), look_dir = (1, 0), muzzle_timer = 0\<rparr>)
      = mk_rect 2 2 10 10
   \<and> \<not> colliderect (rect (move_and_collide [mk_rect 12 0 10 50, mk_rect 0 12 50 10]
        \<lparr>rect = mk_rect 0 0 10 10, vel = (3, 3), look_dir = (1, 0), muzzle_timer = 0\<rparr>))
        (mk_rect 12 0 10 50)
   \<and> \<not> colliderect (rect (move_and_collide [mk_rect 12 0 10 50, mk_rect 0 12 50 10]
        \<lparr>rect = mk_rect 0 0 10 10, vel = (3, 3), look_dir = (1, 0), muzzle_timer = 0\<rparr>))
        (mk_rect 0 12 50 10)"
  using move_and_collide_no_overlap[of
      "\<lparr>rect = mk_rect 0 0 10 10, vel = (3, 3), look_dir = (1, 0), muzzle_timer = 0\<rparr>"
      "[mk_rect 12 0 10 50, mk_rect 0 12 50 10]"]
    py_int_of_int[of 3]
  by (simp add: move_and_collide_def move_rect_def shift_mk resolve_x_mk resolve_y_mk
      colliderect_mk mk_sel)

subsection \<open>Guard spawn clamping\<close>

text \<open>
  C10. Whatever coordinates are passed to \<^verbatim>\<open>Guard.__init__\<close>, the guard's rectangle
  starts with \<open>x\<close> in \<open>[50, WIDTH - 70]\<close> and \<open>y\<close> in \<open>[50, HEIGHT - 70]\<close>, and so lies
  inside the screen. The interval is read for a screen of at least 120 by 120, the
  sizes for which it is not empty.
\<close>

theorem Guard_init_clamped:
  assumes "120 \<le> WIDTH cfg" and "120 \<le> HEIGHT cfg"
  shows "50 \<le> rx (rect (Guard_init cfg gx gy pts prof t0))
       \<and> rx (rect (Guard_init cfg gx gy pts prof t0)) \<le> WIDTH cfg - 70
       \<and> 50 \<le> ry (rect (Guard_init cfg gx gy pts prof t0))
       \<and> ry (rect (Guard_init cfg gx gy pts prof t0)) \<le> HEIGHT cfg - 70
       \<and> 0 \<le> rect_left (rect (Guard_init cfg gx gy pts prof t0))
       \<and> rect_right (rect (Guard_init cfg gx gy pts prof t0)) \<le> WIDTH cfg
       \<and> 0 \<le> rect_top (rect (Guard_init cfg gx gy pts prof t0))
       \<and> rect_bottom (rect (Guard_init cfg gx gy pts prof t0)) \<le> HEIGHT cfg"
  using assms
  by (auto simp add: Guard_init_def mk_rect_def rect_left_def rect_right_def rect_top_def
      rect_bottom_def Let_def)

theorem Guard_init_clamped_witness:
  "120 \<le> WIDTH sample_settings \<and> 120 \<le> HEIGHT sample_settings
   \<and> rx (rect (Guard_init sample_settings 5000 (- 40) [] Story (1/2))) = 1130
   \<and> ry (rect (Guard_init sample_settings 5000 (- 40) [] Story (1/2))) = 50"
  using Guard_init_clamped [of sample_settings 5000 "- 40" "[]" Story "1/2"]
  by (simp add: Guard_init_def mk_rect_def sample_settings_def)

subsection \<open>Vectors and shooting\<close>

lemma vlength_nonneg: "0 \<le> vlength v"
  by (simp add: vlength_def length_squared_def)

lemma vlength_pos_iff: "0 < vlength v \<longleftrightarrow> length_squared v \<noteq> 0"
proof -
  have "0 \<le> length_squared v" by (simp add: length_squared_def)
  then show ?thesis by (auto simp add: vlength_def)
qed

lemma length_squared_zero_iff: "length_squared v = 0 \<longleftrightarrow> v = (0, 0)"
  by (cases v) (auto simp add: length_squared_def sum_squares_eq_zero_iff[unfolded power2_eq_square])

lemma normalize_scale: "length_squared v \<noteq> 0 \<Longrightarrow> vscale (normalize_vec v) (vlength v) = v"
  using vlength_pos_iff[of v] by (cases v) (simp add: vscale_def normalize_vec_def)

lemma try_shoot_fail:
  "\<not> has_gun p \<or> ammo p \<le> 0 \<or> fire_cooldown p > 0 \<Longrightarrow> try_shoot t p = (p, None)"
  by (auto simp add: try_shoot_def)

lemma try_shoot_ok:
  assumes "has_gun p" "0 < ammo p" "fire_cooldown p \<le> 0"
  shows "snd (try_shoot t p) = Some (Bullet_init (vec_of (rect_center (rect p)))
            (vsub (vec_of t) (vec_of (rect_center (rect p)))) ''player'')"
    and "ammo (fst (try_shoot t p)) = ammo p - 1"
    and "fire_cooldown (fst (try_shoot t p)) = 0.18"
    and "muzzle_timer (fst (try_shoot t p)) = 0.05"
    and "has_gun (fst (try_shoot t p))"
  using assms by (simp_all add: try_shoot_def Let_def)

lemma Player_init_sel:
  "rect (Player_init cfg a b prof) = mk_rect a b 22 32"
  "has_gun (Player_init cfg a b prof) = False"
  "ammo (Player_init cfg a b prof) = 0"
  "fire_cooldown (Player_init cfg a b prof) = 0"
  "stamina (Player_init cfg a b prof) = MAX_STAMINA cfg"
  "muzzle_timer (Player_init cfg a b prof) = 0"
  "look_dir (Player_init cfg a b prof) = (1, 0)"
  "clues (Player_init cfg a b prof) = 0"
  "rescued_npcs (Player_init cfg a b prof) = 0"
  "keys (Player_init cfg a b prof) = \<lparr>jail_key = False, cave_key = False, boat_key = False\<rparr>"
  "Player.health (Player_init cfg a b prof) = player_health prof"
  by (simp_all add: Player_init_def)

lemma rect_center_mk: "rect_center (mk_rect a b 22 32) = (a + 11, b + 16)"
  by (simp add: rect_center_def rect_centerx_def rect_centery_def mk_rect_def half_def)

text \<open>
  A shot never makes the ammunition count negative, and for a count that is not
  negative the guard \<^verbatim>\<open>ammo <= 0\<close> is the test \<open>ammo = 0\<close>. Picking items up keeps
  the count non-negative too (lemma \<open>interact_nonneg_ammo\<close> below).
\<close>

lemma try_shoot_nonneg_ammo:
  assumes "0 \<le> ammo p"
  shows "snd (try_shoot t p) = None \<longleftrightarrow> \<not> has_gun p \<or> ammo p = 0 \<or> fire_cooldown p > 0"
    and "0 \<le> ammo (fst (try_shoot t p))"
  using assms by (auto simp add: try_shoot_def Let_def)

text \<open>
  C3. The ammunition count of a player is never negative: it starts at 0, pickups add to
  it, and a shot takes a round only from a positive count. For such a player
  \<^verbatim>\<open>Player.try_shoot\<close> returns no bullet and leaves the player as it was (ammo, cooldown
  and facing included) whenever \<open>has_gun\<close> is false, \<open>ammo\<close> is 0, or \<open>fire_cooldown > 0\<close>.
  In every other state it takes one round, sets \<open>fire_cooldown\<close> to 0.18 and returns a
  bullet owned by the player that starts at the centre of the player's rectangle; its
  direction is the unit vector from that centre to the target, and \<open>(1, 0)\<close> when the
  target is the centre itself.
\<close>

theorem try_shoot_spec:
  assumes "0 \<le> ammo p"
  shows "(\<not> has_gun p \<or> ammo p = 0 \<or> fire_cooldown p > 0 \<longrightarrow> try_shoot t p = (p, None))
   \<and> (\<not> (\<not> has_gun p \<or> ammo p = 0 \<or> fire_cooldown p > 0) \<longrightarrow>
        (\<exists>b. snd (try_shoot t p) = Some b
           \<and> ammo (fst (try_shoot t p)) = ammo p - 1
           \<and> fire_cooldown (fst (try_shoot t p)) = 0.18
           \<and> owner b = ''player''
           \<and> pos b = vec_of (rect_center (rect p))
           \<and> (vec_of t \<noteq> vec_of (rect_center (rect p)) \<longrightarrow>
                0 < vlength (vsub (vec_of t) (vec_of (rect_center (rect p))))
                \<and> vscale (dir b) (vlength (vsub (vec_of t) (vec_of (rect_center (rect p)))))
                    = vsub (vec_of t) (vec_of (rect_center (rect p))))
           \<and> (vec_of t = vec_of (rect_center (rect p)) \<longrightarrow> dir b = (1, 0))))"
proof (intro conjI impI)
  assume "\<not> has_gun p \<or> ammo p = 0 \<or> fire_cooldown p > 0"
  then have "\<not> has_gun p \<or> ammo p \<le> 0 \<or> fire_cooldown p > 0" by auto
  then show "try_shoot t p = (p, None)" by (rule try_shoot_fail)
next
  assume "\<not> (\<not> has_gun p \<or> ammo p = 0 \<or> fire_cooldown p > 0)"
  then have a: "has_gun p \<and> 0 < ammo p \<and> fire_cooldown p \<le> 0"
    using assms by auto
  let ?c = "vec_of (rect_center (rect p))"
  let ?d = "vsub (vec_of t) ?c"
  let ?b = "Bullet_init ?c ?d ''player''"
  have ne: "vec_of t \<noteq> ?c \<Longrightarrow> length_squared ?d \<noteq> 0"
    by (auto simp add: length_squared_zero_iff vsub_def prod_eq_iff)
  have eq: "vec_of t = ?c \<Longrightarrow> length_squared ?d = 0"
    by (simp add: length_squared_def vsub_def)
  have "snd (try_shoot t p) = Some ?b" using a try_shoot_ok(1) by blast
  moreover have "ammo (fst (try_shoot t p)) = ammo p - 1" using a try_shoot_ok(2) by blast
  moreover have "fire_cooldown (fst (try_shoot t p)) = 0.18" using a try_shoot_ok(3) by blast
  moreover have "owner ?b = ''player''" "pos ?b = ?c" by (simp_all add: Bullet_init_def)
  moreover have "vec_of t \<noteq> ?c \<longrightarrow> 0 < vlength ?d \<and> vscale (dir ?b) (vlength ?d) = ?d"
    using ne by (auto simp add: Bullet_init_def normalize_scale vlength_pos_iff)
  moreover have "vec_of t = ?c \<longrightarrow> dir ?b = (1, 0)"
    using eq by (simp add: Bullet_init_def)
  ultimately show "\<exists>b. snd (try_shoot t p) = Some b
           \<and> ammo (fst (try_shoot t p)) = ammo p - 1
           \<and> fire_cooldown (fst (try_shoot t p)) = 0.18
           \<and> owner b = ''player''
           \<and> pos b = ?c
           \<and> (vec_of t \<noteq> ?c \<longrightarrow> 0 < vlength ?d \<and> vscale (dir b) (vlength ?d) = ?d)
           \<and> (vec_of t = ?c \<longrightarrow> dir b = (1, 0))"
    by blast
qed

theorem try_shoot_spec_witness:
  "try_shoot (114, 570) (Player_init sample_settings 100 550 Story)
     = (Player_init sample_settings 100 550 Story, None)
   \<and> ammo (fst (try_shoot (114, 570)
        ((Player_init sample_settings 100 550 Story)\<lparr>has_gun := True, ammo := 20\<rparr>))) = 19
   \<and> (\<exists>b. snd (try_shoot (114, 570)
        ((Player_init sample_settings 100 550 Story)\<lparr>has_gun := True, ammo := 20\<rparr>)) = Some b
        \<and> owner b = ''player'' \<and> pos b = (111, 566) \<and> vscale (dir b) 5 = (3, 4))"
proof -
  let ?p = "(Player_init sample_settings 100 550 Story)\<lparr>has_gun := True, ammo := 20\<rparr>"
  have len: "vlength (vsub (vec_of (114, 570)) (vec_of (rect_center (rect ?p)))) = 5"
    by (simp add: Player_init_sel rect_center_mk vec_of_def vsub_def vlength_def length_squared_def)
  have ctr: "vec_of (rect_center (rect ?p)) = (111, 566)"
    by (simp add: Player_init_sel rect_center_mk vec_of_def)
  have d: "vsub (vec_of (114, 570)) (vec_of (rect_center (rect ?p))) = (3, 4)"
    by (simp add: Player_init_sel rect_center_mk vec_of_def vsub_def)
  have pre: "has_gun ?p \<and> 0 < ammo ?p \<and> fire_cooldown ?p \<le> 0"
    by (simp add: Player_init_sel)
  have ne: "vec_of (114, 570) \<noteq> vec_of (rect_center (rect ?p))"
    by (simp add: Player_init_sel rect_center_mk vec_of_def)
  show ?thesis
    using try_shoot_spec[where p = "Player_init sample_settings 100 550 Story" and t = "(114, 570)"]
      try_shoot_spec[where p = ?p and t = "(114, 570)"] pre ne len ctr d
    by (auto simp add: Player_init_sel)
qed

subsection \<open>Stamina\<close>

lemma handle_input_stamina:
  "stamina (handle_input cfg ks dt drain recover p) =
     (if sprinting ks p then max 0 (stamina p - drain * dt)
      else min (MAX_STAMINA cfg) (stamina p + recover * dt))"
  by (simp add: handle_input_def Let_def)

lemma handle_input_timers:
  "fire_cooldown (handle_input cfg ks dt drain recover p) = max 0 (fire_cooldown p - dt)"
  "muzzle_timer (handle_input cfg ks dt drain recover p) = max 0 (muzzle_timer p - dt)"
  by (simp_all add: handle_input_def Let_def)

lemma handle_input_stamina_bounds:
  assumes "0 \<le> MAX_STAMINA cfg" "0 \<le> drain" "0 \<le> recover" "0 \<le> dt"
    and "0 \<le> stamina p" "stamina p \<le> MAX_STAMINA cfg"
  shows "0 \<le> stamina (handle_input cfg ks dt drain recover p)
       \<and> stamina (handle_input cfg ks dt drain recover p) \<le> MAX_STAMINA cfg"
proof -
  define a where "a = drain * dt"
  define b where "b = recover * dt"
  have ab: "0 \<le> a" "0 \<le> b" using assms by (simp_all add: a_def b_def)
  have "stamina (handle_input cfg ks dt drain recover p) =
     (if sprinting ks p then max 0 (stamina p - a) else min (MAX_STAMINA cfg) (stamina p + b))"
    by (simp add: handle_input_stamina a_def b_def)
  then show ?thesis using ab assms(1,5,6) by auto
qed

lemma handle_inputs_stamina_bounds:
  assumes "0 \<le> MAX_STAMINA cfg" "0 \<le> drain" "0 \<le> recover"
    and "\<forall>f\<in>set inputs. 0 \<le> snd f"
    and "0 \<le> stamina p" "stamina p \<le> MAX_STAMINA cfg"
  shows "0 \<le> stamina (handle_inputs cfg drain recover inputs p)
       \<and> stamina (handle_inputs cfg drain recover inputs p) \<le> MAX_STAMINA cfg"
  using assms(4-)
proof (induction inputs arbitrary: p)
  case Nil
  then show ?case by simp
next
  case (Cons f rest)
  obtain ks dt where f: "f = (ks, dt)" by (cases f)
  have "0 \<le> dt" using Cons.prems(1) f by simp
  then have step: "0 \<le> stamina (handle_input cfg ks dt drain recover p)
       \<and> stamina (handle_input cfg ks dt drain recover p) \<le> MAX_STAMINA cfg"
    using handle_input_stamina_bounds[OF assms(1-3)] Cons.prems by blast
  show ?case using Cons.IH[of "handle_input cfg ks dt drain recover p"] step Cons.prems(1) f
    by simp
qed

text \<open>
  C7 (amended). For every sequence of \<^verbatim>\<open>handle_input\<close> calls with non-negative \<open>dt\<close>
  and non-negative drain and recover rates, starting from a stamina in
  \<open>[0, MAX_STAMINA]\<close>, the stamina is in \<open>[0, MAX_STAMINA]\<close> after every call: a
  sprinting call sets it to \<open>max 0 (stamina - drain * dt)\<close>, any other call to
  \<open>min MAX_STAMINA (stamina + recover * dt)\<close>.
\<close>

theorem stamina_bounds:
  assumes "0 \<le> MAX_STAMINA cfg" "0 \<le> drain" "0 \<le> recover"
    and "\<forall>f\<in>set inputs. 0 \<le> snd f"
    and "0 \<le> stamina p" "stamina p \<le> MAX_STAMINA cfg"
  shows "(\<forall>n\<le>length inputs.
            0 \<le> stamina (handle_inputs cfg drain recover (take n inputs) p)
          \<and> stamina (handle_inputs cfg drain recover (take n inputs) p) \<le> MAX_STAMINA cfg)
       \<and> (\<forall>ks dt. stamina (handle_input cfg ks dt drain recover p) =
            (if sprinting ks p then max 0 (stamina p - drain * dt)
             else min (MAX_STAMINA cfg) (stamina p + recover * dt)))"
proof -
  have "\<And>n. \<forall>f\<in>set (take n inputs). 0 \<le> snd f"
    using assms(4) by (meson in_set_takeD)
  then show ?thesis
    using handle_inputs_stamina_bounds[OF assms(1-3) _ assms(5,6)] handle_input_stamina
    by blast
qed

text \<open>
  C7 (as stated, refuted). The claim allows any drain and recover rates. With a negative
  drain rate a sprinting frame adds stamina, and the floor at zero does not cap it: a
  fresh player sprinting for one second at drain rate \<open>-1\<close> ends above the maximum.
\<close>

theorem stamina_bounds_counterexample:
  "0 \<le> stamina (Player_init sample_settings 100 550 Story)
   \<and> stamina (Player_init sample_settings 100 550 Story) \<le> MAX_STAMINA sample_settings
   \<and> MAX_STAMINA sample_settings <
       stamina (handle_input sample_settings (keys_none\<lparr>K_d := True, K_LSHIFT := True\<rparr>) 1 (- 1) 20
         (Player_init sample_settings 100 550 Story))"
  by (simp add: handle_input_stamina sprinting_def input_direction_def length_squared_def
      keys_none_def Player_init_sel sample_settings_def)

theorem stamina_bounds_witness:
  "stamina (handle_inputs sample_settings 24 20
      [(keys_none\<lparr>K_d := True, K_LSHIFT := True\<rparr>, 5), (keys_none, 1)]
      (Player_init sample_settings 100 550 Story)) = 20
   \<and> stamina (handle_inputs sample_settings 24 20
      [(keys_none\<lparr>K_d := True, K_LSHIFT := True\<rparr>, 5)]
      (Player_init sample_settings 100 550 Story)) = 0"
proof -
  let ?inputs = "[(keys_none\<lparr>K_d := True, K_LSHIFT := True\<rparr>, 5::real), (keys_none, 1)]"
  have "\<forall>f\<in>set ?inputs. 0 \<le> snd f" by simp
  then show ?thesis
    using stamina_bounds[of sample_settings 24 20 ?inputs "Player_init sample_settings 100 550 Story"]
    by (simp add: handle_input_stamina sprinting_def input_direction_def length_squared_def
      keys_none_def Player_init_sel sample_settings_def)
qed

subsection \<open>Guard sensing, firing and timers\<close>

lemma move_and_collide_guard_fields:
  "shoot_timer (move_and_collide obs g) = shoot_timer g"
  "muzzle_timer (move_and_collide obs g) = muzzle_timer g"
  "profile (move_and_collide obs g) = profile g"
  "alerted (move_and_collide obs g) = alerted g"
  "Guard.health (move_and_collide obs g) = Guard.health g"
  "patrol_points (move_and_collide obs g) = patrol_points g"
  "current_patrol (move_and_collide obs g) = current_patrol g"
  "vel (move_and_collide obs g) = vel g"
  "look_dir (move_and_collide obs g) = look_dir g"
  by (simp_all add: move_and_collide_def)

lemma guard_finish_fields:
  "shoot_timer (fst (guard_finish dt cs tp obs g)) =
     (if cs \<and> shoot_timer g - dt \<le> 0 then guard_shoot_cooldown (profile g) else shoot_timer g - dt)"
  "muzzle_timer (fst (guard_finish dt cs tp obs g)) =
     (if cs \<and> shoot_timer g - dt \<le> 0 then 0.05 else max 0 (muzzle_timer g - dt))"
  "snd (guard_finish dt cs tp obs g) =
     (if cs \<and> shoot_timer g - dt \<le> 0
      then Some (Bullet_init (vec_of (rect_center (move_rect (vel g) obs (rect g)))) tp ''guard'')
      else None)"
  "alerted (fst (guard_finish dt cs tp obs g)) = alerted g"
  "profile (fst (guard_finish dt cs tp obs g)) = profile g"
  "Guard.health (fst (guard_finish dt cs tp obs g)) = Guard.health g"
  "rect (fst (guard_finish dt cs tp obs g)) = move_rect (vel g) obs (rect g)"
  by (simp_all add: guard_finish_def Let_def move_and_collide_guard_fields)
     (simp_all add: move_and_collide_def)

lemma Guard_update_alerted:
  "alerted (fst (Guard_update dt pl obs g)) = can_see_of pl obs g"
  by (simp add: Guard_update_def Let_def can_see_of_def to_player_of_def guard_finish_fields
      )

lemma Guard_update_error:
  "snd (Guard_update dt pl obs g) =
     (if \<not> can_see_of pl obs g \<and> length (patrol_points g) \<le> current_patrol g
      then Inl IndexError
      else Inr (if can_see_of pl obs g \<and> shoot_timer g - dt \<le> 0
                then Some (Bullet_init (vec_of (rect_center (rect (fst (Guard_update dt pl obs g)))))
                             (to_player_of pl g) ''guard'')
                else None))"
  by (simp add: Guard_update_def Let_def guard_finish_fields)

lemma Guard_update_shoot_timer:
  "shoot_timer (fst (Guard_update dt pl obs g)) =
     (if \<not> can_see_of pl obs g \<and> length (patrol_points g) \<le> current_patrol g
      then shoot_timer g
      else if can_see_of pl obs g \<and> shoot_timer g - dt \<le> 0
      then guard_shoot_cooldown (profile g)
      else shoot_timer g - dt)"
  by (simp add: Guard_update_def Let_def guard_finish_fields)

lemma Guard_update_muzzle_timer:
  "muzzle_timer (fst (Guard_update dt pl obs g)) =
     (if \<not> can_see_of pl obs g \<and> length (patrol_points g) \<le> current_patrol g
      then muzzle_timer g
      else if can_see_of pl obs g \<and> shoot_timer g - dt \<le> 0
      then 0.05
      else max 0 (muzzle_timer g - dt))"
  by (simp add: Guard_update_def Let_def guard_finish_fields)

lemma Guard_update_health:
  "Guard.health (fst (Guard_update dt pl obs g)) = Guard.health g"
  by (simp add: Guard_update_def Let_def guard_finish_fields)

lemma los_loop_iff:
  "los_loop c1 c2 obs js \<longleftrightarrow> (\<forall>i\<in>set js. \<forall>w\<in>set obs. \<not> colliderect w (probe c1 c2 i))"
  by (induction js) (auto simp add: list_ex_iff)

lemma line_of_sight_iff:
  "line_of_sight r t obs \<longleftrightarrow>
     (\<forall>i\<in>{1..25}. \<forall>w\<in>set obs. \<not> colliderect w (probe (rect_center r) t i))"
proof -
  have "set [1..<26] = {1..25::nat}" by auto
  then show ?thesis by (simp add: line_of_sight_def los_loop_iff)
qed

lemma Guard_init_sel:
  "50 \<le> a \<Longrightarrow> a \<le> WIDTH cfg - 70 \<Longrightarrow> 50 \<le> b \<Longrightarrow> b \<le> HEIGHT cfg - 70 \<Longrightarrow>
     rect (Guard_init cfg a b pts prof t0) = mk_rect a b 22 32"
  "profile (Guard_init cfg a b pts prof t0) = prof"
  "shoot_timer (Guard_init cfg a b pts prof t0) = t0"
  "muzzle_timer (Guard_init cfg a b pts prof t0) = 0"
  "patrol_points (Guard_init cfg a b pts prof t0) = map vec_of pts"
  "current_patrol (Guard_init cfg a b pts prof t0) = 0"
  "look_dir (Guard_init cfg a b pts prof t0) = (1, 0)"
  "vel (Guard_init cfg a b pts prof t0) = (0, 0)"
  "Guard.health (Guard_init cfg a b pts prof t0) = guard_health prof"
  by (simp_all add: Guard_init_def Let_def)

lemma vlength_axis: "vlength (a, 0) = \<bar>a\<bar>"
  by (simp add: vlength_def length_squared_def)

lemma Guard_update_rect_alerted:
  "can_see_of pl obs g \<Longrightarrow>
   rect (fst (Guard_update dt pl obs g)) =
     move_rect (if vlength (to_player_of pl g) > 75
                then vscale (if vlength (to_player_of pl g) > 0
                             then normalize_vec (to_player_of pl g) else look_dir g)
                       (guard_speed (profile g))
                else (0, 0)) obs (rect g)"
  by (simp add: Guard_update_def Let_def guard_finish_fields)

subsection \<open>Binary64 rounding at concrete values\<close>

text \<open>
  \<open>fl\<close> on a number whose binade is known: the significand is scaled to an integer of
  53 bits and rounded.
\<close>

lemma fl_unit:
  assumes "x \<noteq> 0" and "\<lfloor>log 2 \<bar>x\<bar>\<rfloor> = e"
  shows "fl x = real_of_int (round_even (x / 2 powr real_of_int (e - 52))) * 2 powr real_of_int (e - 52)"
  using assms by (simp add: fl_def Let_def)

lemma fl_ge1:
  assumes "2 ^ n \<le> \<bar>x\<bar>" and "\<bar>x\<bar> < 2 * 2 ^ n" and "n \<le> 52"
  shows "fl x = real_of_int (round_even (x * 2 ^ (52 - n))) / 2 ^ (52 - n)"
proof -
  have "(0::real) < 2 ^ n" by simp
  then have pos: "0 < \<bar>x\<bar>" using assms(1) by linarith
  have e: "\<lfloor>log 2 \<bar>x\<bar>\<rfloor> = int n"
    using assms(1,2) pos
    by (simp add: floor_log_eq_powr_iff powr_realpow powr_add)
  have "real_of_int (int n - 52) = - real (52 - n)" using assms(3) by simp
  then have u: "2 powr real_of_int (int n - 52) = 1 / 2 ^ (52 - n)"
    by (simp only: powr_minus_divide powr_realpow[of 2, simplified])
  have x: "x \<noteq> 0" using pos by simp
  show ?thesis
    unfolding fl_unit[OF x e] u by simp
qed

lemma fl_lt1:
  assumes "1 / 2 ^ n \<le> \<bar>x\<bar>" and "\<bar>x\<bar> < 2 / 2 ^ n"
  shows "fl x = real_of_int (round_even (x * 2 ^ (52 + n))) / 2 ^ (52 + n)"
proof -
  have "(0::real) < 1 / 2 ^ n" by simp
  then have pos: "0 < \<bar>x\<bar>" using assms(1) by linarith
  have p: "2 powr real_of_int (- int n) = 1 / 2 ^ n"
    by (simp add: powr_minus_divide powr_realpow)
  have p1: "2 powr real_of_int (- int n + 1) = 2 / 2 ^ n"
    by (simp add: powr_diff powr_realpow)
  have "2 powr real_of_int (- int n) \<le> \<bar>x\<bar> \<and> \<bar>x\<bar> < 2 powr real_of_int (- int n + 1)"
    unfolding p p1 using assms by simp
  then have e: "\<lfloor>log 2 \<bar>x\<bar>\<rfloor> = - int n"
    using floor_log_eq_powr_iff[of "\<bar>x\<bar>" 2 "- int n"] pos by simp
  have "real_of_int (- int n - 52) = - real (52 + n)" by simp
  then have u: "2 powr real_of_int (- int n - 52) = 1 / 2 ^ (52 + n)"
    by (simp only: powr_minus_divide powr_realpow[of 2, simplified])
  have x: "x \<noteq> 0" using pos by simp
  show ?thesis
    unfolding fl_unit[OF x e] u by simp
qed

text \<open>
  The probe of the Tunnels wall: in binary64, \<open>77 + 286 * (15 / 26) - 2\<close> is just below
  240, so the probe's top edge is 239.
\<close>

lemma probe_coord_y15: "probe_coord 77 363 15 = 239"
proof -
  have t: "fl (real (15::nat) / 26) = 5196461108504418 / 9007199254740992"
    using fl_lt1[of 1 "15/26"] by (simp add: round_even_def)
  have m: "fl (real_of_int (363 - 77) * (5196461108504418 / 9007199254740992))
             = 5805421394657279 / 35184372088832"
    using fl_ge1[of 7 "286 * (5196461108504418 / 9007199254740992)"] by (simp add: round_even_def)
  have s: "fl (real_of_int 77 + 5805421394657279 / 35184372088832)
             = 8514618045497343 / 35184372088832"
    using fl_ge1[of 7 "77 + 5805421394657279 / 35184372088832"] by (simp add: round_even_def)
  have r: "fl (8514618045497343 / 35184372088832 - 2) = 8444249301319679 / 35184372088832"
    using fl_ge1[of 7 "8514618045497343 / 35184372088832 - 2"] by (simp add: round_even_def)
  show ?thesis
    unfolding probe_coord_def t m s r by (simp add: py_int_def)
qed

lemma probe_coord_x15: "probe_coord 408 304 15 = 346"
proof -
  have t: "fl (real (15::nat) / 26) = 5196461108504418 / 9007199254740992"
    using fl_lt1[of 1 "15/26"] by (simp add: round_even_def)
  have m: "fl (real_of_int (304 - 408) * (5196461108504418 / 9007199254740992))
             = - (8444249301319679 / 140737488355328)"
    using fl_ge1[of 5 "- 104 * (5196461108504418 / 9007199254740992)"] by (simp add: round_even_def)
  have s: "fl (real_of_int 408 + - (8444249301319679 / 140737488355328)) = 348"
    using fl_ge1[of 8 "408 + - (8444249301319679 / 140737488355328)"] by (simp add: round_even_def)
  have r: "fl (348 - 2) = 346"
    using fl_ge1[of 8 "346"] by (simp add: round_even_def)
  show ?thesis
    unfolding probe_coord_def t m s r by (simp add: py_int_def)
qed

subsection \<open>Alert and fire\<close>

lemma vlength_int:
  "vlength (real_of_int a, real_of_int b) = sqrt (real_of_int (a * a + b * b))"
  by (simp add: vlength_def length_squared_def)

lemma to_player_of_centres:
  "to_player_of pl g =
     (real_of_int (rect_centerx (rect pl) - rect_centerx (rect g)),
      real_of_int (rect_centery (rect pl) - rect_centery (rect g)))"
  by (simp add: to_player_of_def vsub_def vec_of_def rect_center_def)

lemma probe_centres:
  "probe (rect_center r1) (rect_center r2) i =
     mk_rect
       (py_int (fl (fl (real_of_int (rect_centerx r1)
          + fl (real_of_int (rect_centerx r2 - rect_centerx r1) * fl (real i / 26))) - 2)))
       (py_int (fl (fl (real_of_int (rect_centery r1)
          + fl (real_of_int (rect_centery r2 - rect_centery r1) * fl (real i / 26))) - 2)))
       4 4"
  by (simp add: probe_def probe_coord_def rect_center_def)

lemma Bullet_init_guard:
  "owner (Bullet_init p (real_of_int a, real_of_int b) ''guard'') = ''guard''"
  "radius (Bullet_init p (real_of_int a, real_of_int b) ''guard'') = 5"
  "alive (Bullet_init p (real_of_int a, real_of_int b) ''guard'')"
  "pos (Bullet_init p (real_of_int a, real_of_int b) ''guard'') = p"
  "dir (Bullet_init p (real_of_int a, real_of_int b) ''guard'') =
     (if a = 0 \<and> b = 0 then (1, 0)
      else (real_of_int a / sqrt (real_of_int (a * a + b * b)),
            real_of_int b / sqrt (real_of_int (a * a + b * b))))"
  by (simp_all add: Bullet_init_def length_squared_zero_iff normalize_vec_def vlength_int)

text \<open>
  C4. Every \<^verbatim>\<open>Guard.update\<close> call sets \<open>alerted\<close> to true exactly when the Euclidean
  distance between the centres of guard and player is at most the profile's sight radius
  and none of the 25 probe rectangles overlaps an obstacle; probe \<open>i\<close> is the 4 by 4
  rectangle whose corner is the truncated binary64 value of
  \<^verbatim>\<open>x1 + (x2 - x1) * (i / 26) - 2\<close> (and likewise for \<open>y\<close>), from the guard's centre
  \<open>(x1, y1)\<close> to the player's \<open>(x2, y2)\<close>. When the guard is alerted and its shoot timer,
  less \<open>dt\<close>, is at or below zero, the call returns one live bullet of radius 5 owned by
  the guard, placed at the guard's centre after its move, whose direction is the vector
  from the guard's centre to the player's at the start of the call divided by its length
  (or \<open>(1, 0)\<close> when the centres coincide), and the timer is reset to the profile's
  \<open>guard_shoot_cooldown\<close>; in every other case it returns no bullet.
\<close>

theorem Guard_update_alert_and_fire:
  "let x1 = rect_centerx (rect g); y1 = rect_centery (rect g);
       x2 = rect_centerx (rect pl); y2 = rect_centery (rect pl);
       d = sqrt (real_of_int ((x2 - x1) * (x2 - x1) + (y2 - y1) * (y2 - y1)));
       r = Guard_update dt pl obs g
   in (alerted (fst r) \<longleftrightarrow>
         d \<le> real_of_int (guard_sight (profile g))
         \<and> (\<forall>i\<in>{1..25}. \<forall>w\<in>set obs.
               \<not> colliderect w
                   (mk_rect
                      (py_int (fl (fl (real_of_int x1
                                        + fl (real_of_int (x2 - x1) * fl (real i / 26))) - 2)))
                      (py_int (fl (fl (real_of_int y1
                                        + fl (real_of_int (y2 - y1) * fl (real i / 26))) - 2)))
                      4 4)))
      \<and> (alerted (fst r) \<and> shoot_timer g - dt \<le> 0 \<longrightarrow>
           (\<exists>b. snd r = Inr (Some b)
                \<and> owner b = ''guard'' \<and> radius b = 5 \<and> alive b
                \<and> pos b = (real_of_int (rect_centerx (rect (fst r))),
                            real_of_int (rect_centery (rect (fst r))))
                \<and> dir b = (if x2 = x1 \<and> y2 = y1 then (1, 0)
                            else (real_of_int (x2 - x1) / d, real_of_int (y2 - y1) / d)))
           \<and> shoot_timer (fst r) = guard_shoot_cooldown (profile g))
      \<and> (\<not> (alerted (fst r) \<and> shoot_timer g - dt \<le> 0) \<longrightarrow>
           (\<forall>b. snd r \<noteq> Inr (Some b)))"
proof -
  have a: "alerted (fst (Guard_update dt pl obs g)) \<longleftrightarrow>
      sqrt (real_of_int ((rect_centerx (rect pl) - rect_centerx (rect g))
                           * (rect_centerx (rect pl) - rect_centerx (rect g))
                         + (rect_centery (rect pl) - rect_centery (rect g))
                           * (rect_centery (rect pl) - rect_centery (rect g))))
        \<le> real_of_int (guard_sight (profile g))
      \<and> (\<forall>i\<in>{1..25}. \<forall>w\<in>set obs.
            \<not> colliderect w (probe (rect_center (rect g)) (rect_center (rect pl)) i))"
    unfolding Guard_update_alerted can_see_of_def line_of_sight_iff to_player_of_centres vlength_int
    by (rule refl)
  have b: "snd (Guard_update dt pl obs g) =
     (if \<not> alerted (fst (Guard_update dt pl obs g)) \<and> length (patrol_points g) \<le> current_patrol g
      then Inl IndexError
      else Inr (if alerted (fst (Guard_update dt pl obs g)) \<and> shoot_timer g - dt \<le> 0
                then Some (Bullet_init (vec_of (rect_center (rect (fst (Guard_update dt pl obs g)))))
                        (real_of_int (rect_centerx (rect pl) - rect_centerx (rect g)),
                         real_of_int (rect_centery (rect pl) - rect_centery (rect g))) ''guard'')
                else None))"
    unfolding Guard_update_alerted to_player_of_centres[symmetric]
    by (rule Guard_update_error)
  have t: "alerted (fst (Guard_update dt pl obs g)) \<and> shoot_timer g - dt \<le> 0 \<Longrightarrow>
      shoot_timer (fst (Guard_update dt pl obs g)) = guard_shoot_cooldown (profile g)"
    by (simp add: Guard_update_alerted Guard_update_shoot_timer)
  show ?thesis
    unfolding Let_def
  proof (intro conjI impI)
    show "alerted (fst (Guard_update dt pl obs g)) \<longleftrightarrow>
      sqrt (real_of_int ((rect_centerx (rect pl) - rect_centerx (rect g))
                           * (rect_centerx (rect pl) - rect_centerx (rect g))
                         + (rect_centery (rect pl) - rect_centery (rect g))
                           * (rect_centery (rect pl) - rect_centery (rect g))))
        \<le> real_of_int (guard_sight (profile g))
      \<and> (\<forall>i\<in>{1..25}. \<forall>w\<in>set obs.
            \<not> colliderect w
                (mk_rect
                   (py_int (fl (fl (real_of_int (rect_centerx (rect g))
                      + fl (real_of_int (rect_centerx (rect pl) - rect_centerx (rect g))
                            * fl (real i / 26))) - 2)))
                   (py_int (fl (fl (real_of_int (rect_centery (rect g))
                      + fl (real_of_int (rect_centery (rect pl) - rect_centery (rect g))
                            * fl (real i / 26))) - 2)))
                   4 4))"
      unfolding a probe_centres by (rule refl)
  next
    assume h: "alerted (fst (Guard_update dt pl obs g)) \<and> shoot_timer g - dt \<le> 0"
    show "shoot_timer (fst (Guard_update dt pl obs g)) = guard_shoot_cooldown (profile g)"
      using t h by simp
    have s: "snd (Guard_update dt pl obs g) =
        Inr (Some (Bullet_init (vec_of (rect_center (rect (fst (Guard_update dt pl obs g)))))
                        (real_of_int (rect_centerx (rect pl) - rect_centerx (rect g)),
                         real_of_int (rect_centery (rect pl) - rect_centery (rect g))) ''guard''))"
      using b h by simp
    show "\<exists>b. snd (Guard_update dt pl obs g) = Inr (Some b)
        \<and> owner b = ''guard'' \<and> radius b = 5 \<and> alive b
        \<and> pos b = (real_of_int (rect_centerx (rect (fst (Guard_update dt pl obs g)))),
                    real_of_int (rect_centery (rect (fst (Guard_update dt pl obs g)))))
        \<and> dir b = (if rect_centerx (rect pl) = rect_centerx (rect g)
                       \<and> rect_centery (rect pl) = rect_centery (rect g) then (1, 0)
                    else (real_of_int (rect_centerx (rect pl) - rect_centerx (rect g))
                            / sqrt (real_of_int ((rect_centerx (rect pl) - rect_centerx (rect g))
                           * (rect_centerx (rect pl) - rect_centerx (rect g))
                         + (rect_centery (rect pl) - rect_centery (rect g))
                           * (rect_centery (rect pl) - rect_centery (rect g)))),
                          real_of_int (rect_centery (rect pl) - rect_centery (rect g))
                            / sqrt (real_of_int ((rect_centerx (rect pl) - rect_centerx (rect g))
                           * (rect_centerx (rect pl) - rect_centerx (rect g))
                         + (rect_centery (rect pl) - rect_centery (rect g))
                           * (rect_centery (rect pl) - rect_centery (rect g))))))"
      unfolding s
      apply (intro exI conjI)
           apply (rule refl)
          apply (rule Bullet_init_guard(1))
         apply (rule Bullet_init_guard(2))
        apply (rule Bullet_init_guard(3))
       apply (simp only: Bullet_init_guard(4) vec_of_def rect_center_def fst_conv snd_conv)
      apply (simp only: Bullet_init_guard(5) right_minus_eq)
      done
  next
    assume h: "\<not> (alerted (fst (Guard_update dt pl obs g)) \<and> shoot_timer g - dt \<le> 0)"
    show "\<forall>b. snd (Guard_update dt pl obs g) \<noteq> Inr (Some b)"
      using b h by auto
  qed
qed


lemma rect_centre_xy_mk:
  "rect_centerx (mk_rect a b 22 32) = a + 11" "rect_centery (mk_rect a b 22 32) = b + 16"
  by (simp_all add: rect_centerx_def rect_centery_def mk_rect_def half_def)

text \<open>
  Two runs. In the Tunnels on Survivor, a guard centred at \<open>(408, 77)\<close> and a player centred
  at \<open>(304, 363)\<close> are within the sight radius, and probe 15 has its top edge at 239 (the
  float is \<open>239.99999999999997\<close>), so it overlaps the wall \<open>(250, 220, 100, 20)\<close> and the
  guard is not alerted. In an empty room a guard whose timer runs out fires along
  \<open>(60, 80) / 100\<close> from its centre after a move of one pixel down.
\<close>

theorem Guard_update_alert_and_fire_witness:
  "\<not> alerted (fst (Guard_update (1/2) (Player_init sample_settings 293 347 Survivor)
        (fst (build_zone_data sample_settings ''Tunnels''))
        (Guard_init sample_settings 397 61 [(300, 300)] Survivor (1/5))))
   \<and> alerted (fst (Guard_update (1/2) (Player_init sample_settings 160 180 Story) []
        (Guard_init sample_settings 100 100 [(300, 300)] Story (1/5))))
   \<and> snd (Guard_update (1/2) (Player_init sample_settings 160 180 Story) []
        (Guard_init sample_settings 100 100 [(300, 300)] Story (1/5)))
       = Inr (Some \<lparr>pos = (111, 117), dir = (3/5, 4/5), owner = ''guard'', radius = 5,
                    alive = True\<rparr>)
   \<and> shoot_timer (fst (Guard_update (1/2) (Player_init sample_settings 160 180 Story) []
        (Guard_init sample_settings 100 100 [(300, 300)] Story (1/5)))) = 6/5"
proof -
  let ?pl = "Player_init sample_settings 293 347 Survivor"
  let ?g = "Guard_init sample_settings 397 61 [(300, 300)] Survivor (1/5)"
  let ?obs = "fst (build_zone_data sample_settings ''Tunnels'')"
  have gr: "rect ?g = mk_rect 397 61 22 32"
    by (rule Guard_init_sel(1)) (simp_all add: sample_settings_def)
  have c: "rect_centerx (rect ?g) = 408" "rect_centery (rect ?g) = 77"
    "rect_centerx (rect ?pl) = 304" "rect_centery (rect ?pl) = 363"
    by (simp_all add: gr Player_init_sel rect_centre_xy_mk)
  have wall: "mk_rect 250 220 100 20 \<in> set ?obs"
    by (simp add: build_zone_data_def)
  have hit: "colliderect (mk_rect 250 220 100 20)
      (mk_rect (probe_coord 408 304 15) (probe_coord 77 363 15) 4 4)"
    by (simp add: probe_coord_x15 probe_coord_y15 colliderect_mk)
  have "alerted (fst (Guard_update (1/2) ?pl ?obs ?g)) \<Longrightarrow>
      \<forall>i\<in>{1..25}. \<forall>w\<in>set ?obs.
        \<not> colliderect w (mk_rect (probe_coord 408 304 i) (probe_coord 77 363 i) 4 4)"
    using Guard_update_alert_and_fire[where g = ?g and pl = ?pl and dt = "1/2" and obs = ?obs]
    unfolding Let_def c probe_coord_def by blast
  then have nal: "\<not> alerted (fst (Guard_update (1/2) ?pl ?obs ?g))"
    using wall hit by auto
  let ?p2 = "Player_init sample_settings 160 180 Story"
  let ?g2 = "Guard_init sample_settings 100 100 [(300, 300)] Story (1/5)"
  have gr2: "rect ?g2 = mk_rect 100 100 22 32"
    by (rule Guard_init_sel(1)) (simp_all add: sample_settings_def)
  have c2: "rect_centerx (rect ?g2) = 111" "rect_centery (rect ?g2) = 116"
    "rect_centerx (rect ?p2) = 171" "rect_centery (rect ?p2) = 196"
    by (simp_all add: gr2 Player_init_sel rect_centre_xy_mk)
  have d: "sqrt (real_of_int ((171 - 111) * (171 - 111) + (196 - 116) * (196 - 116))) = 100"
    by (rule real_sqrt_unique) simp_all
  have prof: "guard_sight (profile ?g2) = 260" "guard_shoot_cooldown (profile ?g2) = 6/5"
    "guard_speed (profile ?g2) = 29/20"
    by (simp_all add: Guard_init_sel Story_def)
  have st: "shoot_timer ?g2 - 1/2 \<le> 0" by (simp add: Guard_init_sel)
  note th = Guard_update_alert_and_fire[where g = ?g2 and pl = ?p2 and dt = "1/2" and obs = "[]",
      unfolded Let_def c2 d prof]
  have al: "alerted (fst (Guard_update (1/2) ?p2 [] ?g2))"
    using th by simp
  have tp: "to_player_of ?p2 ?g2 = (60, 80)"
    by (simp add: to_player_of_centres c2)
  have vl: "vlength (60, 80) = 100"
    using vlength_int[of 60 80] d by simp
  have nv: "normalize_vec (60, 80) = (3/5, 4/5)"
    by (simp add: normalize_vec_def vl)
  have mv: "move_rect (vscale (3/5, 4/5) (29/20)) [] (mk_rect 100 100 22 32)
      = mk_rect 100 101 22 32"
    by (simp add: move_rect_def shift_mk vscale_def py_int_def)
  have cs: "can_see_of ?p2 [] ?g2"
    using al by (simp only: Guard_update_alerted)
  have rect': "rect (fst (Guard_update (1/2) ?p2 [] ?g2)) = mk_rect 100 101 22 32"
    by (simp add: Guard_update_rect_alerted[OF cs] tp vl nv prof gr2 mv)
  from th al st obtain b where b: "snd (Guard_update (1/2) ?p2 [] ?g2) = Inr (Some b)"
    "owner b = ''guard''" "radius b = 5" "alive b"
    "pos b = (real_of_int (rect_centerx (rect (fst (Guard_update (1/2) ?p2 [] ?g2)))),
              real_of_int (rect_centery (rect (fst (Guard_update (1/2) ?p2 [] ?g2)))))"
    "dir b = (real_of_int (171 - 111) / 100, real_of_int (196 - 116) / 100)"
    and t: "shoot_timer (fst (Guard_update (1/2) ?p2 [] ?g2)) = 6/5"
    by auto
  have "b = \<lparr>pos = (111, 117), dir = (3/5, 4/5), owner = ''guard'', radius = 5, alive = True\<rparr>"
    using b(2-6) by (cases b) (simp add: rect' rect_centre_xy_mk)
  then show ?thesis
    using nal al b(1) t by simp
qed

text \<open>
  C8 (amended). On each update the player's \<open>fire_cooldown\<close> and \<open>muzzle_timer\<close> are
  decremented by \<open>dt\<close> and clamped at zero, and so is the guard's \<open>muzzle_timer\<close> unless
  the guard fires (then it is set to 0.05); none of them is negative afterwards. The
  guard's \<open>shoot_timer\<close> is decremented by \<open>dt\<close> without a clamp, and is reset to the
  profile's \<open>guard_shoot_cooldown\<close> when the guard fires.
\<close>

theorem timers_spec:
  "fire_cooldown (handle_input cfg ks dt drain recover p) = max 0 (fire_cooldown p - dt)
   \<and> 0 \<le> fire_cooldown (handle_input cfg ks dt drain recover p)
   \<and> muzzle_timer (handle_input cfg ks dt drain recover p) = max 0 (muzzle_timer p - dt)
   \<and> 0 \<le> muzzle_timer (handle_input cfg ks dt drain recover p)
   \<and> (\<forall>b. snd (Guard_update dt pl obs g) = Inr b \<longrightarrow>
         shoot_timer (fst (Guard_update dt pl obs g)) =
           (if b = None then shoot_timer g - dt else guard_shoot_cooldown (profile g))
         \<and> muzzle_timer (fst (Guard_update dt pl obs g)) =
           (if b = None then max 0 (muzzle_timer g - dt) else 0.05)
         \<and> 0 \<le> muzzle_timer (fst (Guard_update dt pl obs g)))"
  by (auto simp add: handle_input_timers Guard_update_error Guard_update_shoot_timer
      Guard_update_muzzle_timer split: if_splits)

text \<open>
  C8 (as stated, refuted). The guard's shoot timer is not clamped: a guard that does not
  see the player, with \<open>shoot_timer = 0.2\<close>, has \<open>shoot_timer = -0.3\<close> after an update
  with \<open>dt = 0.5\<close>.
\<close>

theorem timers_counterexample:
  "(0::real) \<le> 1/2
   \<and> 0 \<le> shoot_timer (Guard_init sample_settings 100 100 [(300, 300)] Story (1/5))
   \<and> snd (Guard_update (1/2) (Player_init sample_settings 1000 100 Story) []
        (Guard_init sample_settings 100 100 [(300, 300)] Story (1/5))) = Inr None
   \<and> shoot_timer (fst (Guard_update (1/2) (Player_init sample_settings 1000 100 Story) []
        (Guard_init sample_settings 100 100 [(300, 300)] Story (1/5)))) = - (3/10)
   \<and> shoot_timer (fst (Guard_update (1/2) (Player_init sample_settings 1000 100 Story) []
        (Guard_init sample_settings 100 100 [(300, 300)] Story (1/5)))) < 0"
proof -
  let ?pl = "Player_init sample_settings 1000 100 Story"
  let ?g = "Guard_init sample_settings 100 100 [(300, 300)] Story (1/5)"
  have gr: "rect ?g = mk_rect 100 100 22 32"
    by (rule Guard_init_sel(1)) (simp_all add: sample_settings_def)
  have tp: "to_player_of ?pl ?g = (900, 0)"
    by (simp add: to_player_of_def gr Player_init_sel rect_center_mk vsub_def vec_of_def)
  have sight: "guard_sight (profile ?g) = 260"
    by (simp add: Guard_init_sel Story_def)
  have ncs: "\<not> can_see_of ?pl [] ?g"
    by (simp add: can_see_of_def tp vlength_axis sight)
  show ?thesis
    by (simp add: Guard_update_error Guard_update_shoot_timer ncs Guard_init_sel)
qed

theorem timers_spec_witness:
  "fire_cooldown (handle_input sample_settings keys_none (1/2) 24 20
      (fst (try_shoot (300, 300)
         ((Player_init sample_settings 100 550 Story)\<lparr>has_gun := True, ammo := 20\<rparr>)))) = 0
   \<and> muzzle_timer (handle_input sample_settings keys_none (1/100) 24 20
      (fst (try_shoot (300, 300)
         ((Player_init sample_settings 100 550 Story)\<lparr>has_gun := True, ammo := 20\<rparr>)))) = 1/25
   \<and> shoot_timer (fst (Guard_update (1/2) (Player_init sample_settings 1000 100 Story) []
        (Guard_init sample_settings 100 100 [(300, 300)] Story (1/5)))) = - (3/10)
   \<and> muzzle_timer (fst (Guard_update (1/2) (Player_init sample_settings 1000 100 Story) []
        (Guard_init sample_settings 100 100 [(300, 300)] Story (1/5)))) = 0"
proof -
  let ?pl = "Player_init sample_settings 1000 100 Story"
  let ?g = "Guard_init sample_settings 100 100 [(300, 300)] Story (1/5)"
  let ?p = "fst (try_shoot (300, 300)
         ((Player_init sample_settings 100 550 Story)\<lparr>has_gun := True, ammo := 20\<rparr>))"
  have p: "fire_cooldown ?p = 0.18" "muzzle_timer ?p = 0.05"
    by (simp_all add: try_shoot_def Let_def Player_init_sel)
  have gr: "rect ?g = mk_rect 100 100 22 32"
    by (rule Guard_init_sel(1)) (simp_all add: sample_settings_def)
  have tp: "to_player_of ?pl ?g = (900, 0)"
    by (simp add: to_player_of_def gr Player_init_sel rect_center_mk vsub_def vec_of_def)
  have sight: "guard_sight (profile ?g) = 260"
    by (simp add: Guard_init_sel Story_def)
  have ncs: "\<not> can_see_of ?pl [] ?g"
    by (simp add: can_see_of_def tp vlength_axis sight)
  have r: "snd (Guard_update (1/2) ?pl [] ?g) = Inr None"
    by (simp add: Guard_update_error ncs Guard_init_sel)
  show ?thesis
    using timers_spec[of sample_settings keys_none "1/2" 24 20 ?p ?pl "[]" ?g]
      timers_spec[of sample_settings keys_none "1/100" 24 20 ?p ?pl "[]" ?g] r p
    by (simp add: Guard_init_sel)
qed

subsection \<open>Extraction and victory\<close>

lemma round_start_sel:
  "player (round_start cfg prof) = Player_init cfg 100 550 prof"
  "victory (round_start cfg prof) = False"
  "Game.zone (round_start cfg prof) = ''Ground''"
  "collected (round_start cfg prof) = {}"
  "pathway_cooldown (round_start cfg prof) = 0"
  "items (round_start cfg prof) = build_items"
  by (simp_all add: round_start_def)

lemma harbor_extraction:
  "snd (snd (build_zone_data cfg ''Harbor'')) = Some (mk_rect 1020 210 80 40)"
  by (simp add: build_zone_data_def)

text \<open>
  The extraction check, when the player's hitbox overlaps the extraction rectangle:
  victory and the victory sound when the clue count is at least 3, the three key flags
  are true and the rescued count is at least 2; otherwise the only change is that the
  message text becomes the rejection text.
\<close>

lemma update_extraction_overlap:
  assumes "colliderect (rect (player g)) e"
  shows "(ready_to_leave (player g) \<longrightarrow>
            update_extraction (Some e) g = g\<lparr>victory := True, sounds := sounds g @ [''victory'']\<rparr>)
       \<and> (\<not> ready_to_leave (player g) \<longrightarrow>
            update_extraction (Some e) g
              = g\<lparr>message := ''Not ready: need all clues, keys, and rescued survivors.''\<rparr>)
       \<and> (\<not> victory g \<longrightarrow>
            (victory (update_extraction (Some e) g) \<longleftrightarrow>
               clues (player g) \<ge> 3 \<and> jail_key (keys (player g)) \<and> cave_key (keys (player g))
               \<and> boat_key (keys (player g)) \<and> rescued_npcs (player g) \<ge> 2))"
  using assms
  by (auto simp add: update_extraction_def ready_to_leave_def keys_all_def colliderect_def)

text \<open>
  With the counters inside the ranges the game keeps them in (three clue items, two
  NPCs), the test of the source and the equalities coincide: victory is set exactly when
  the clue count is 3, the three keys are held and the rescued count is 2.
\<close>

lemma extraction_within_ranges:
  assumes "colliderect (rect (player g)) e" and "\<not> victory g"
    and "clues (player g) \<le> 3" and "rescued_npcs (player g) \<le> 2"
  shows "victory (update_extraction (Some e) g) \<longleftrightarrow>
           clues (player g) = 3 \<and> jail_key (keys (player g)) \<and> cave_key (keys (player g))
           \<and> boat_key (keys (player g)) \<and> rescued_npcs (player g) = 2"
  using assms
  by (auto simp add: update_extraction_def ready_to_leave_def keys_all_def colliderect_def)

text \<open>
  The rejection text is on screen after the frame only if the message timer was armed
  before it and has more than \<open>dt\<close> left: the rejection branch assigns the text and leaves
  the timer alone. \<^verbatim>\<open>interact\<close>, by contrast, arms the timer with 2 seconds whenever it
  has set a message.
\<close>

lemma rejection_drawn_iff:
  assumes "colliderect (rect (player g)) e" and "\<not> ready_to_leave (player g)"
  shows "draw_message (update_message_time dt (update_extraction (Some e) g)) =
           (if message_time g - dt > 0
            then Some ''Not ready: need all clues, keys, and rescued survivors.'' else None)"
  using assms
  by (simp add: update_extraction_def draw_message_def update_message_time_def colliderect_def)

lemma interact_arms_message_time:
  "snd (interact_npcs (interact_keys (zone_items_of g) (interact_clue (zone_items_of g)
      (interact_ammo (zone_items_of g) (interact_gun (zone_items_of g) (g, False)))))) \<Longrightarrow>
   message_time (interact g) = 2"
  by (simp add: interact_def Let_def)

text \<open>
  C1 (the code departs from the claim). When the player's hitbox overlaps the extraction
  rectangle and one of the three
  conditions is false, the claim has a rejection message shown. In the Harbor, a player
  standing on the boat with 3 clues, the three keys and one of the two survivors rescued,
  at a moment when no message is on screen (the message timer is 0): the extraction
  check leaves victory false and changes nothing but the message text, which becomes the
  rejection text; the timer is still 0 at the end of the update, so \<^verbatim>\<open>draw\<close> renders no
  message.
\<close>

theorem rejection_message_not_drawn:
  "Game.zone on_boat_one_rescued = ''Harbor''
   \<and> colliderect (rect (player on_boat_one_rescued)) (mk_rect 1020 210 80 40)
   \<and> list_all (\<lambda>w. \<not> colliderect (rect (player on_boat_one_rescued)) w)
        (fst (build_zone_data sample_settings ''Harbor''))
   \<and> clues (player on_boat_one_rescued) = 3
   \<and> keys (player on_boat_one_rescued) = \<lparr>jail_key = True, cave_key = True, boat_key = True\<rparr>
   \<and> rescued_npcs (player on_boat_one_rescued) = 1
   \<and> message_time on_boat_one_rescued = 0
   \<and> update_extraction (snd (snd (build_zone_data sample_settings ''Harbor''))) on_boat_one_rescued
      = on_boat_one_rescued
          \<lparr>message := ''Not ready: need all clues, keys, and rescued survivors.''\<rparr>
   \<and> \<not> victory (update_extraction (snd (snd (build_zone_data sample_settings ''Harbor'')))
          on_boat_one_rescued)
   \<and> draw_message (update_message_time (1/60)
        (update_extraction (snd (snd (build_zone_data sample_settings ''Harbor'')))
           on_boat_one_rescued)) = None"
proof -
  let ?g = on_boat_one_rescued
  have p: "rect (player ?g) = mk_rect 1040 230 22 32"
    by (simp add: on_boat_one_rescued_def Player_init_sel)
  have c: "colliderect (rect (player ?g)) (mk_rect 1020 210 80 40)"
    unfolding p by (simp add: colliderect_mk)
  have w: "list_all (\<lambda>w. \<not> colliderect (rect (player ?g)) w)
      (fst (build_zone_data sample_settings ''Harbor''))"
    unfolding p
    by (simp add: build_zone_data_def border_def sample_settings_def colliderect_mk)
  have f: "Game.zone ?g = ''Harbor''" "clues (player ?g) = 3"
    "keys (player ?g) = \<lparr>jail_key = True, cave_key = True, boat_key = True\<rparr>"
    "rescued_npcs (player ?g) = 1" "message_time ?g = 0" "\<not> victory ?g"
    by (simp_all add: on_boat_one_rescued_def round_start_sel)
  have r: "\<not> ready_to_leave (player ?g)"
    by (simp add: ready_to_leave_def f)
  have u: "update_extraction (Some (mk_rect 1020 210 80 40)) ?g
      = ?g\<lparr>message := ''Not ready: need all clues, keys, and rescued survivors.''\<rparr>"
    using update_extraction_overlap[OF c] r by blast
  have v: "\<not> victory (update_extraction (Some (mk_rect 1020 210 80 40)) ?g)"
    unfolding u using f(6) by simp
  have d: "draw_message (update_message_time (1/60)
      (update_extraction (Some (mk_rect 1020 210 80 40)) ?g)) = None"
    using rejection_drawn_iff[OF c r, of "1/60"] f(5) by simp
  show ?thesis
    unfolding harbor_extraction using c w f(1-5) u v d by (intro conjI)
qed

subsection \<open>The guard pass\<close>

lemma guards_loop_one:
  "snd (Guard_update dt pl obs g) = Inr shot \<Longrightarrow>
   guards_loop dt pl obs [g] =
     ((if Guard.health (fst (Guard_update dt pl obs g)) \<le> 0 then []
       else [fst (Guard_update dt pl obs g)]),
      (case shot of Some b \<Rightarrow> [b] | None \<Rightarrow> []),
      alerted (fst (Guard_update dt pl obs g)), None)"
  by (simp add: Let_def)

lemma health_irrelevant:
  "to_player_of pl (g\<lparr>Guard.health := h\<rparr>) = to_player_of pl g"
  "can_see_of pl obs (g\<lparr>Guard.health := h\<rparr>) = can_see_of pl obs g"
  by (simp_all add: to_player_of_def can_see_of_def)

lemma guards_loop_survivors:
  "snd (snd (snd (guards_loop dt pl obs gs))) = None \<Longrightarrow>
   fst (guards_loop dt pl obs gs)
     = map (\<lambda>g. fst (Guard_update dt pl obs g)) (filter (\<lambda>g. 0 < Guard.health g) gs)"
proof (induction gs)
  case Nil
  then show ?case by simp
next
  case (Cons g gs)
  then show ?case
    by (cases "snd (Guard_update dt pl obs g)")
       (auto simp add: Let_def Guard_update_health case_prod_beta)
qed

text \<open>
  C6 (the code departs from the claim). The guard pass calls \<^verbatim>\<open>guard.update\<close> before it
  tests \<^verbatim>\<open>guard.health <= 0\<close>, and a guard loses health only in the bullet pass that
  follows it. So a guard whose health is at most zero when the frame starts is updated
  once more: the guard below, already at health 0, moves from centre \<open>(111, 116)\<close> and
  fires a bullet from \<open>(112, 116)\<close> before the pass removes it.
\<close>

theorem dead_guard_updates_once_more:
  "Guard.health ((Guard_init sample_settings 100 100 [(300, 300)] Story (1/5))\<lparr>Guard.health := 0\<rparr>) \<le> 0
   \<and> rect_center (rect ((Guard_init sample_settings 100 100 [(300, 300)] Story (1/5))\<lparr>Guard.health := 0\<rparr>))
       = (111, 116)
   \<and> guards_loop (1/2) (Player_init sample_settings 200 100 Story) []
        [(Guard_init sample_settings 100 100 [(300, 300)] Story (1/5))\<lparr>Guard.health := 0\<rparr>]
       = ([], [\<lparr>pos = (112, 116), dir = (1, 0), owner = ''guard'', radius = 5, alive = True\<rparr>],
          True, None)"
proof -
  let ?pl = "Player_init sample_settings 200 100 Story"
  let ?g = "(Guard_init sample_settings 100 100 [(300, 300)] Story (1/5))\<lparr>Guard.health := 0\<rparr>"
  let ?gi = "Guard_init sample_settings 100 100 [(300, 300)] Story (1/5)"
  have gr0: "rect ?gi = mk_rect 100 100 22 32"
    using Guard_init_sel(1)[of 100 sample_settings 100 "[(300, 300)]" Story "1/5"]
    by (simp add: sample_settings_def)
  have tp0: "to_player_of ?pl ?gi = (100, 0)"
    by (simp add: to_player_of_def gr0 Player_init_sel rect_center_mk vsub_def vec_of_def)
  have tp: "to_player_of ?pl ?g = (100, 0)"
    by (simp add: health_irrelevant tp0)
  have dist: "vlength (100, 0) = 100"
    by (simp add: vlength_axis)
  have prof: "guard_sight (profile ?gi) = 260" "guard_shoot_cooldown (profile ?gi) = 6/5"
    "guard_speed (profile ?gi) = 29/20"
    by (simp_all add: Guard_init_sel Story_def)
  have cs0: "can_see_of ?pl [] ?gi"
    by (simp add: can_see_of_def tp0 dist prof line_of_sight_iff)
  have cs: "can_see_of ?pl [] ?g"
    by (simp add: health_irrelevant cs0)
  have nv: "normalize_vec (100, 0) = (1, 0)"
    by (simp add: normalize_vec_def vlength_axis)
  have mv: "move_rect (vscale (1, 0) (29 / 20)) [] (mk_rect 100 100 22 32) = mk_rect 101 100 22 32"
    by (simp add: move_rect_def shift_mk vscale_def py_int_def)
  have rect': "rect (fst (Guard_update (1/2) ?pl [] ?g)) = mk_rect 101 100 22 32"
    by (simp add: Guard_update_rect_alerted[OF cs] tp dist nv prof gr0 mv)
  have b: "Bullet_init (vec_of (rect_center (mk_rect 101 100 22 32))) (100, 0) ''guard''
      = \<lparr>pos = (112, 116), dir = (1, 0), owner = ''guard'', radius = 5, alive = True\<rparr>"
    by (simp add: Bullet_init_def rect_center_mk vec_of_def length_squared_def normalize_vec_def
        vlength_axis)
  have st: "shoot_timer ?g - 1/2 \<le> 0" by (simp add: Guard_init_sel)
  have shot: "snd (Guard_update (1/2) ?pl [] ?g)
      = Inr (Some \<lparr>pos = (112, 116), dir = (1, 0), owner = ''guard'', radius = 5, alive = True\<rparr>)"
    using st by (simp add: Guard_update_error cs rect' tp b)
  have h: "Guard.health (fst (Guard_update (1/2) ?pl [] ?g)) = 0"
    by (simp add: Guard_update_health)
  have al: "alerted (fst (Guard_update (1/2) ?pl [] ?g))"
    by (simp add: Guard_update_alerted cs)
  show ?thesis
    using guards_loop_one[OF shot] h al by (simp add: gr0 rect_center_mk)
qed

subsection \<open>Gates\<close>

lemma show_hint_keeps:
  "player (show_hint m g) = player g"
  "Game.zone (show_hint m g) = Game.zone g"
  "pathway_cooldown (show_hint m g) = pathway_cooldown g"
  by (simp_all add: show_hint_def)

lemma update_gates_skip:
  "\<forall>x\<in>set gs. \<not> colliderect (rect (player g)) (gate_rect x) \<Longrightarrow> update_gates gs g = Inr g"
  by (induction gs) simp_all

lemma update_gates_prefix:
  "\<forall>x\<in>set pre. \<not> colliderect (rect (player g)) (gate_rect x) \<Longrightarrow>
   update_gates (pre @ rest) g = update_gates rest g"
proof (induction pre)
  case Nil
  then show ?case by simp
next
  case (Cons a pre)
  then show ?case by (cases rest) simp_all
qed

lemma update_gates_cooldown: "pathway_cooldown g > 0 \<Longrightarrow> update_gates gs g = Inr g"
  by (cases gs) simp_all

lemma transfer_followers_keeps:
  "player (transfer_followers z g) = player g"
  "Game.zone (transfer_followers z g) = Game.zone g"
  by (simp_all add: transfer_followers_def Let_def case_prod_beta)

lemma pass_gate_zone: "Game.zone (pass_gate gate g) = target_zone gate"
  by (simp add: pass_gate_def Let_def)

lemma pass_gate_cooldown: "pathway_cooldown (pass_gate gate g) = 0.7"
  by (simp add: pass_gate_def Let_def)

lemma pass_gate_rect:
  "target_zone gate = ''Harbor'' \<longrightarrow> 300 \<le> snd (spawn gate) + half (rh (rect (player g))) \<Longrightarrow>
   rect (player (pass_gate gate g)) = set_topleft (spawn gate) (rect (player g))"
  by (auto simp add: pass_gate_def Let_def transfer_followers_keeps rect_centery_def set_topleft_def)

text \<open>The outcome of the loop when the player overlaps exactly one gate of the list.\<close>

lemma update_gates_only:
  assumes "\<not> pathway_cooldown g > 0"
    and "colliderect (rect (player g)) (gate_rect gate)"
    and "\<forall>x\<in>set pre \<union> set post. \<not> colliderect (rect (player g)) (gate_rect x)"
    and "index_of region_order (Game.zone g) \<noteq> None"
    and "index_of region_order (target_zone gate) \<noteq> None"
  shows "update_gates (pre @ gate # post) g =
     (case locked_by gate g of
        Some k \<Rightarrow> Inr (show_hint (''Pathway locked: requires '' @ replace_underscore k) g)
      | None \<Rightarrow>
          if leads_forward gate g \<and> \<not> region_complete g (Game.zone g)
          then Inr (show_hint ''Complete this region's tasks first.'' g)
          else Inr (pass_gate gate g))"
proof -
  have pre: "update_gates (pre @ gate # post) g = update_gates (gate # post) g"
    using assms(3) by (simp add: update_gates_prefix)
  have post: "\<And>m. update_gates post (show_hint m g) = Inr (show_hint m g)"
    using assms(3) by (simp add: update_gates_skip show_hint_keeps)
  show ?thesis
    using assms(1,2,4,5)
    by (auto simp add: pre post leads_forward_def split: option.splits)
qed

lemma zone_gates_eq:
  "zone_gates cfg ''Ground'' = [mk_gate (mk_rect 52 84 54 92) ''Estate'' (1060, 620) (Some ''jail_key'')]"
  "zone_gates cfg ''Estate'' =
     [mk_gate (mk_rect 1082 620 56 56) ''Ground'' (100, 140) None,
      mk_gate (mk_rect 80 620 60 60) ''Tunnels'' (1040, 600) (Some ''cave_key'')]"
  "zone_gates cfg ''Tunnels'' =
     [mk_gate (mk_rect 1082 620 56 56) ''Estate'' (120, 620) None,
      mk_gate (mk_rect 70 80 80 80) ''Harbor'' (500, 400) (Some ''boat_key'')]"
  "zone_gates cfg ''Harbor'' = [mk_gate (mk_rect 1080 620 60 60) ''Tunnels'' (160, 140) None]"
  by (simp_all add: zone_gates_def build_zone_data_def)

lemma zone_gates_other:
  "z \<noteq> ''Ground'' \<Longrightarrow> z \<noteq> ''Estate'' \<Longrightarrow> z \<noteq> ''Tunnels'' \<Longrightarrow> z \<noteq> ''Harbor'' \<Longrightarrow>
   zone_gates cfg z = []"
  by (simp add: zone_gates_def build_zone_data_def)

lemma mk_gate_sel:
  "gate_rect (mk_gate r t s k) = r" "target_zone (mk_gate r t s k) = t"
  "spawn (mk_gate r t s k) = s" "required_key (mk_gate r t s k) = k"
  by (simp_all add: mk_gate_def)

lemma far_apart_x:
  assumes "rw r = 22" "rh r = 32" "0 < c" "0 < d" "0 < c'" "0 < d'"
    and "a + c + 22 \<le> a' \<or> a' + c' + 22 \<le> a"
    and "colliderect r (mk_rect a b c d)"
  shows "\<not> colliderect r (mk_rect a' b' c' d')"
  using assms by (auto simp add: colliderect_def mk_rect_def)

lemma index_of_region:
  "index_of region_order ''Ground'' = Some 0"
  "index_of region_order ''Estate'' = Some 1"
  "index_of region_order ''Tunnels'' = Some 2"
  "index_of region_order ''Harbor'' = Some 3"
  by (simp_all add: region_order_def)

lemma real_gates:
  assumes "gate \<in> set (zone_gates cfg z)"
    and "rw r = 22" "rh r = 32"
    and "colliderect r (gate_rect gate)"
  shows "(\<exists>pre post. zone_gates cfg z = pre @ gate # post
            \<and> (\<forall>x\<in>set pre \<union> set post. \<not> colliderect r (gate_rect x)))
       \<and> index_of region_order z \<noteq> None
       \<and> index_of region_order (target_zone gate) \<noteq> None
       \<and> (target_zone gate = ''Harbor'' \<longrightarrow> 300 \<le> snd (spawn gate) + half 32)"
proof -
  consider "z = ''Ground''" | "z = ''Estate''" | "z = ''Tunnels''" | "z = ''Harbor''"
    | "z \<noteq> ''Ground''" "z \<noteq> ''Estate''" "z \<noteq> ''Tunnels''" "z \<noteq> ''Harbor''"
    by blast
  then show ?thesis
  proof cases
    case 1
    then have g: "gate = mk_gate (mk_rect 52 84 54 92) ''Estate'' (1060, 620) (Some ''jail_key'')"
      using assms(1) by (simp add: zone_gates_eq)
    have "zone_gates cfg z = [] @ gate # []" using 1 g by (simp add: zone_gates_eq)
    then show ?thesis using 1 g
      by (intro conjI exI[of _ "[]"]) (simp_all add: mk_gate_sel index_of_region)
  next
    case 2
    let ?a = "mk_gate (mk_rect 1082 620 56 56) ''Ground'' (100, 140) None"
    let ?b = "mk_gate (mk_rect 80 620 60 60) ''Tunnels'' (1040, 600) (Some ''cave_key'')"
    have "gate = ?a \<or> gate = ?b" using 2 assms(1) by (simp add: zone_gates_eq)
    then show ?thesis
    proof
      assume g: "gate = ?a"
      have "\<not> colliderect r (gate_rect ?b)"
        using far_apart_x[OF assms(2,3), of 56 56 60 60 1082 80 620 620] assms(4) g
        by (simp add: mk_gate_sel)
      moreover have "zone_gates cfg z = [] @ gate # [?b]" using 2 g by (simp add: zone_gates_eq)
      ultimately show ?thesis using 2 g
        by (intro conjI exI[of _ "[]"] exI[of _ "[?b]"]) (simp_all add: mk_gate_sel index_of_region)
    next
      assume g: "gate = ?b"
      have "\<not> colliderect r (gate_rect ?a)"
        using far_apart_x[OF assms(2,3), of 60 60 56 56 80 1082 620 620] assms(4) g
        by (simp add: mk_gate_sel)
      moreover have "zone_gates cfg z = [?a] @ gate # []" using 2 g by (simp add: zone_gates_eq)
      ultimately show ?thesis using 2 g
        by (intro conjI exI[of _ "[?a]"] exI[of _ "[]"]) (simp_all add: mk_gate_sel index_of_region)
    qed
  next
    case 3
    let ?a = "mk_gate (mk_rect 1082 620 56 56) ''Estate'' (120, 620) None"
    let ?b = "mk_gate (mk_rect 70 80 80 80) ''Harbor'' (500, 400) (Some ''boat_key'')"
    have "gate = ?a \<or> gate = ?b" using 3 assms(1) by (simp add: zone_gates_eq)
    then show ?thesis
    proof
      assume g: "gate = ?a"
      have "\<not> colliderect r (gate_rect ?b)"
        using far_apart_x[OF assms(2,3), of 56 56 80 80 1082 70 620 80] assms(4) g
        by (simp add: mk_gate_sel)
      moreover have "zone_gates cfg z = [] @ gate # [?b]" using 3 g by (simp add: zone_gates_eq)
      ultimately show ?thesis using 3 g
        by (intro conjI exI[of _ "[]"] exI[of _ "[?b]"]) (simp_all add: mk_gate_sel index_of_region)
    next
      assume g: "gate = ?b"
      have "\<not> colliderect r (gate_rect ?a)"
        using far_apart_x[OF assms(2,3), of 80 80 56 56 70 1082 80 620] assms(4) g
        by (simp add: mk_gate_sel)
      moreover have "zone_gates cfg z = [?a] @ gate # []" using 3 g by (simp add: zone_gates_eq)
      ultimately show ?thesis using 3 g
        by (intro conjI exI[of _ "[?a]"] exI[of _ "[]"])
           (simp_all add: mk_gate_sel index_of_region half_def)
    qed
  next
    case 4
    then have g: "gate = mk_gate (mk_rect 1080 620 60 60) ''Tunnels'' (160, 140) None"
      using assms(1) by (simp add: zone_gates_eq)
    have "zone_gates cfg z = [] @ gate # []" using 4 g by (simp add: zone_gates_eq)
    then show ?thesis using 4 g
      by (intro conjI exI[of _ "[]"]) (simp_all add: mk_gate_sel index_of_region)
  next
    case 5
    then show ?thesis using assms(1) by (simp add: zone_gates_other)
  qed
qed

text \<open>
  C2. In a frame where the transition cooldown has run out and the player (a 22 by 32
  hitbox) overlaps the trigger rectangle of a gate of the current zone: if the gate
  requires a key the player lacks, the zone and the player stay as they are; if the
  gate leads to a zone later in \<open>region_order\<close> and the current zone's tasks are
  incomplete, likewise; otherwise the gate loop ends with the zone switched to the gate's
  target, the player's rectangle moved to the gate's spawn point and the cooldown set to
  0.7, and while that cooldown lasts no gate check changes the state again.
\<close>

theorem gate_transition:
  assumes "gate \<in> set (zone_gates cfg (Game.zone g))"
    and "rw (rect (player g)) = 22" and "rh (rect (player g)) = 32"
    and "\<not> pathway_cooldown g > 0"
    and "colliderect (rect (player g)) (gate_rect gate)"
  shows "(locked_by gate g \<noteq> None \<longrightarrow>
            (\<exists>g'. update_gates (zone_gates cfg (Game.zone g)) g = Inr g'
                  \<and> Game.zone g' = Game.zone g \<and> player g' = player g))
       \<and> (locked_by gate g = None \<and> leads_forward gate g \<and> \<not> region_complete g (Game.zone g) \<longrightarrow>
            (\<exists>g'. update_gates (zone_gates cfg (Game.zone g)) g = Inr g'
                  \<and> Game.zone g' = Game.zone g \<and> player g' = player g))
       \<and> (locked_by gate g = None \<and> \<not> (leads_forward gate g \<and> \<not> region_complete g (Game.zone g)) \<longrightarrow>
            update_gates (zone_gates cfg (Game.zone g)) g = Inr (pass_gate gate g)
            \<and> Game.zone (pass_gate gate g) = target_zone gate
            \<and> rect (player (pass_gate gate g)) = set_topleft (spawn gate) (rect (player g))
            \<and> pathway_cooldown (pass_gate gate g) = 0.7
            \<and> (\<forall>gs. update_gates gs (pass_gate gate g) = Inr (pass_gate gate g)))"
proof -
  from real_gates[OF assms(1,2,3,5)]
  obtain pre post where split: "zone_gates cfg (Game.zone g) = pre @ gate # post"
    and others: "\<forall>x\<in>set pre \<union> set post. \<not> colliderect (rect (player g)) (gate_rect x)"
    and idx: "index_of region_order (Game.zone g) \<noteq> None"
      "index_of region_order (target_zone gate) \<noteq> None"
    and harbor: "target_zone gate = ''Harbor'' \<longrightarrow> 300 \<le> snd (spawn gate) + half 32"
    by blast
  have out: "update_gates (zone_gates cfg (Game.zone g)) g =
     (case locked_by gate g of
        Some k \<Rightarrow> Inr (show_hint (''Pathway locked: requires '' @ replace_underscore k) g)
      | None \<Rightarrow>
          if leads_forward gate g \<and> \<not> region_complete g (Game.zone g)
          then Inr (show_hint ''Complete this region's tasks first.'' g)
          else Inr (pass_gate gate g))"
    unfolding split by (rule update_gates_only[OF assms(4,5) others idx])
  have r: "rect (player (pass_gate gate g)) = set_topleft (spawn gate) (rect (player g))"
    using harbor assms(3) by (simp add: pass_gate_rect)
  have again: "\<forall>gs. update_gates gs (pass_gate gate g) = Inr (pass_gate gate g)"
    by (simp add: update_gates_cooldown pass_gate_cooldown)
  show ?thesis
    using out r again
    by (auto simp add: show_hint_keeps pass_gate_zone pass_gate_cooldown split: option.splits)
qed

theorem gate_transition_witness:
  "update_gates (zone_gates sample_settings ''Ground'')
      ((round_start sample_settings Story)\<lparr>player := Player_init sample_settings 60 100 Story\<rparr>)
     = Inr (show_hint ''Pathway locked: requires jail key''
         ((round_start sample_settings Story)\<lparr>player := Player_init sample_settings 60 100 Story\<rparr>))
   \<and> Game.zone (show_hint ''Pathway locked: requires jail key''
         ((round_start sample_settings Story)\<lparr>player := Player_init sample_settings 60 100 Story\<rparr>))
       = ''Ground''
   \<and> (\<exists>g'. update_gates (zone_gates sample_settings ''Ground'')
        ((round_start sample_settings Story)
           \<lparr>player := (Player_init sample_settings 60 100 Story)
              \<lparr>has_gun := True, keys := \<lparr>jail_key = True, cave_key = False, boat_key = False\<rparr>\<rparr>,
            collected := {''clue_Ground''}\<rparr>) = Inr g'
        \<and> Game.zone g' = ''Estate'' \<and> rect (player g') = mk_rect 1060 620 22 32
        \<and> pathway_cooldown g' = 7/10)"
proof -
  let ?gate = "mk_gate (mk_rect 52 84 54 92) ''Estate'' (1060, 620) (Some ''jail_key'')"
  let ?a = "(round_start sample_settings Story)\<lparr>player := Player_init sample_settings 60 100 Story\<rparr>"
  let ?b = "(round_start sample_settings Story)
           \<lparr>player := (Player_init sample_settings 60 100 Story)
              \<lparr>has_gun := True, keys := \<lparr>jail_key = True, cave_key = False, boat_key = False\<rparr>\<rparr>,
            collected := {''clue_Ground''}\<rparr>"
  have za: "Game.zone ?a = ''Ground''" and zb: "Game.zone ?b = ''Ground''"
    by (simp_all add: round_start_sel)
  have mem: "?gate \<in> set (zone_gates sample_settings ''Ground'')"
    by (simp add: zone_gates_eq)
  have ca: "colliderect (rect (player ?a)) (gate_rect ?gate)"
    and cb: "colliderect (rect (player ?b)) (gate_rect ?gate)"
    by (simp_all add: mk_gate_sel Player_init_sel colliderect_mk)
  have la: "locked_by ?gate ?a = Some ''jail_key''"
    by (simp add: locked_by_def mk_gate_sel keys_get_def Player_init_sel)
  have lb: "locked_by ?gate ?b = None"
    by (simp add: locked_by_def mk_gate_sel keys_get_def)
  have rc: "region_complete ?b ''Ground''"
    by (simp add: region_complete_def current_region_tasks_def round_start_sel)
  have ta: "update_gates (zone_gates sample_settings ''Ground'') ?a
       = Inr (show_hint ''Pathway locked: requires jail key'' ?a)"
  proof -
    have c: "colliderect (rect (Player_init sample_settings 60 100 Story)) (mk_rect 52 84 54 92)"
      by (simp add: Player_init_sel colliderect_mk)
    show ?thesis
      by (simp add: zone_gates_eq mk_gate_sel c la round_start_sel replace_underscore_def)
  qed
  have tb: "update_gates (zone_gates sample_settings (Game.zone ?b)) ?b = Inr (pass_gate ?gate ?b)
            \<and> Game.zone (pass_gate ?gate ?b) = target_zone ?gate
            \<and> rect (player (pass_gate ?gate ?b)) = set_topleft (spawn ?gate) (rect (player ?b))
            \<and> pathway_cooldown (pass_gate ?gate ?b) = 0.7"
    using gate_transition[of ?gate sample_settings ?b] mem cb lb rc
    by (simp add: round_start_sel Player_init_sel mk_sel)
  have "rect (player (pass_gate ?gate ?b)) = mk_rect 1060 620 22 32"
    using tb by (simp add: mk_gate_sel set_topleft_def Player_init_sel mk_rect_def)
  then show ?thesis
    using ta tb by (simp add: round_start_sel mk_gate_sel show_hint_keeps)
qed

subsection \<open>Item pickup\<close>

lemma digit_char_inj: "a < 10 \<Longrightarrow> b < 10 \<Longrightarrow> digit_char a = digit_char b \<Longrightarrow> a = b"
proof -
  assume a: "a < 10" and b: "b < 10" and e: "digit_char a = digit_char b"
  have d: "distinct ''0123456789''" by simp
  have "a < length ''0123456789''" "b < length ''0123456789''" using a b by simp_all
  then show "a = b" using e d unfolding digit_char_def by (simp only: nth_eq_iff_index_eq)
qed

lemma str_nat_nonempty: "str_nat n \<noteq> []"
  by (subst str_nat.simps) simp

lemma str_nat_inj: "str_nat n = str_nat m \<Longrightarrow> n = m"
proof (induction n arbitrary: m rule: str_nat.induct)
  case (1 n)
  show ?case
  proof (cases "n < 10")
    case True
    note n = this
    show ?thesis
    proof (cases "m < 10")
      case True
      then show ?thesis using n "1.prems" digit_char_inj
        by (simp add: str_nat.simps[of n] str_nat.simps[of m])
    next
      case False
      then show ?thesis using n "1.prems" str_nat_nonempty[of "m div 10"]
        by (simp add: str_nat.simps[of n] str_nat.simps[of m])
    qed
  next
    case False
    note n = this
    show ?thesis
    proof (cases "m < 10")
      case True
      then show ?thesis using n "1.prems" str_nat_nonempty[of "n div 10"]
        by (simp add: str_nat.simps[of n] str_nat.simps[of m])
    next
      case False
      then have e: "str_nat (n div 10) = str_nat (m div 10)"
        and d: "digit_char (n mod 10) = digit_char (m mod 10)"
        using n "1.prems" by (simp_all add: str_nat.simps[of n] str_nat.simps[of m])
      have "n div 10 = m div 10" using "1.IH"[OF n e] .
      moreover have "n mod 10 = m mod 10" using d digit_char_inj by simp
      ultimately show ?thesis by (metis div_mult_mod_eq)
    qed
  qed
qed

lemma ammo_id_inj: "ammo_id z i = ammo_id z j \<longleftrightarrow> i = j"
  using str_nat_inj by (auto simp add: ammo_id_def)

lemma ids_distinct:
  "ammo_id z i \<noteq> ''gun''" "clue_id z \<noteq> ''gun''" "clue_id z \<noteq> ammo_id z' i"
  "''gun'' \<noteq> ammo_id z i" "''gun'' \<noteq> clue_id z" "ammo_id z' i \<noteq> clue_id z"
  by (simp_all add: ammo_id_def clue_id_def)

lemma same_place_refl: "same_place g g"
  by (simp add: same_place_def)

lemma same_place_trans: "same_place a b \<Longrightarrow> same_place b c \<Longrightarrow> same_place a c"
  by (simp add: same_place_def)

lemma same_place_items: "same_place g g' \<Longrightarrow> zone_items_of g' = zone_items_of g"
  by (simp add: same_place_def zone_items_of_def)

lemma interact_gun_effect:
  "collected (fst (interact_gun (zone_items_of g) (g, f)))
     = collected g \<union> (if gun_collectable g then {''gun''} else {})"
  "ammo (player (fst (interact_gun (zone_items_of g) (g, f))))
     = ammo (player g) + (if gun_collectable g then 20 else 0)"
  "has_gun (player (fst (interact_gun (zone_items_of g) (g, f))))
     = (has_gun (player g) \<or> gun_collectable g)"
  "clues (player (fst (interact_gun (zone_items_of g) (g, f)))) = clues (player g)"
  "keys (player (fst (interact_gun (zone_items_of g) (g, f)))) = keys (player g)"
  "npcs (fst (interact_gun (zone_items_of g) (g, f))) = npcs g"
  "same_place g (fst (interact_gun (zone_items_of g) (g, f)))"
  by (auto simp add: interact_gun_def gun_collectable_def same_place_def Let_def
      split: option.splits)

lemma ammo_step_effect:
  "collected (fst (ammo_step (g, f) ib))
     = collected g \<union> (if ammo_pick g ib then {ammo_id (Game.zone g) (fst ib)} else {})"
  "ammo (player (fst (ammo_step (g, f) ib)))
     = ammo (player g) + (if ammo_pick g ib then 12 else 0)"
  "has_gun (player (fst (ammo_step (g, f) ib))) = has_gun (player g)"
  "clues (player (fst (ammo_step (g, f) ib))) = clues (player g)"
  "keys (player (fst (ammo_step (g, f) ib))) = keys (player g)"
  "npcs (fst (ammo_step (g, f) ib)) = npcs g"
  "same_place g (fst (ammo_step (g, f) ib))"
  by (auto simp add: ammo_step_def ammo_pick_def same_place_def Let_def)

lemma ammo_pick_later:
  assumes "fst ib' \<noteq> fst ib"
  shows "ammo_pick (fst (ammo_step (g, f) ib)) ib' = ammo_pick g ib'"
  using assms
  by (auto simp add: ammo_step_def ammo_pick_def Let_def ammo_id_inj)

lemma ammo_loop_effect:
  assumes "distinct (map fst ibs)"
  shows "collected (fst (foldl ammo_step (g, f) ibs))
           = collected g \<union> (\<lambda>ib. ammo_id (Game.zone g) (fst ib)) ` set (filter (ammo_pick g) ibs)
       \<and> ammo (player (fst (foldl ammo_step (g, f) ibs)))
           = ammo (player g) + 12 * int (length (filter (ammo_pick g) ibs))
       \<and> has_gun (player (fst (foldl ammo_step (g, f) ibs))) = has_gun (player g)
       \<and> clues (player (fst (foldl ammo_step (g, f) ibs))) = clues (player g)
       \<and> keys (player (fst (foldl ammo_step (g, f) ibs))) = keys (player g)
       \<and> npcs (fst (foldl ammo_step (g, f) ibs)) = npcs g
       \<and> same_place g (fst (foldl ammo_step (g, f) ibs))"
  using assms
proof (induction ibs arbitrary: g f)
  case Nil
  then show ?case by (simp add: same_place_refl)
next
  case (Cons ib rest)
  obtain g1 f1 where s1: "ammo_step (g, f) ib = (g1, f1)" by (cases "ammo_step (g, f) ib")
  have g1: "g1 = fst (ammo_step (g, f) ib)" using s1 by simp
  have later: "filter (ammo_pick g1) rest = filter (ammo_pick g) rest"
  proof (rule filter_cong[OF refl])
    fix ib' assume "ib' \<in> set rest"
    then have b: "fst ib' \<in> fst ` set rest" by (rule imageI)
    have a: "fst ib \<notin> fst ` set rest" using Cons.prems by simp
    have "fst ib' \<noteq> fst ib" using a b by metis
    then show "ammo_pick g1 ib' = ammo_pick g ib'" unfolding g1 by (rule ammo_pick_later)
  qed
  have z: "Game.zone g1 = Game.zone g"
    using ammo_step_effect(7)[of g f ib] by (simp add: g1 same_place_def)
  have ih: "collected (fst (foldl ammo_step (g1, f1) rest))
           = collected g1 \<union> (\<lambda>ib. ammo_id (Game.zone g1) (fst ib)) ` set (filter (ammo_pick g1) rest)
       \<and> ammo (player (fst (foldl ammo_step (g1, f1) rest)))
           = ammo (player g1) + 12 * int (length (filter (ammo_pick g1) rest))
       \<and> has_gun (player (fst (foldl ammo_step (g1, f1) rest))) = has_gun (player g1)
       \<and> clues (player (fst (foldl ammo_step (g1, f1) rest))) = clues (player g1)
       \<and> keys (player (fst (foldl ammo_step (g1, f1) rest))) = keys (player g1)
       \<and> npcs (fst (foldl ammo_step (g1, f1) rest)) = npcs g1
       \<and> same_place g1 (fst (foldl ammo_step (g1, f1) rest))"
    using Cons.IH[of g1 f1] Cons.prems by simp
  have sp: "same_place g (fst (foldl ammo_step (g1, f1) rest))"
    using ih ammo_step_effect(7)[of g f ib] same_place_trans unfolding g1 by blast
  have e: "collected g1
       = collected g \<union> (if ammo_pick g ib then {ammo_id (Game.zone g) (fst ib)} else {})"
    "ammo (player g1) = ammo (player g) + (if ammo_pick g ib then 12 else 0)"
    "has_gun (player g1) = has_gun (player g)"
    "clues (player g1) = clues (player g)"
    "keys (player g1) = keys (player g)"
    "npcs g1 = npcs g"
    unfolding g1 by (rule ammo_step_effect)+
  show ?case
    using ih sp
    by (auto simp add: s1 later z e)
qed

lemma enumerate_distinct: "distinct (map fst (enumerate n xs))"
  by (simp add: map_fst_enumerate)

lemma interact_ammo_effect:
  assumes "zone_items_of g = its"
  shows "collected (fst (interact_ammo its (g, f)))
           = collected g \<union> (\<lambda>ib. ammo_id (Game.zone g) (fst ib)) ` set (ammo_collectable g)"
    and "ammo (player (fst (interact_ammo its (g, f))))
           = ammo (player g) + 12 * int (length (ammo_collectable g))"
    and "has_gun (player (fst (interact_ammo its (g, f)))) = has_gun (player g)"
    and "clues (player (fst (interact_ammo its (g, f)))) = clues (player g)"
    and "keys (player (fst (interact_ammo its (g, f)))) = keys (player g)"
    and "npcs (fst (interact_ammo its (g, f))) = npcs g"
    and "same_place g (fst (interact_ammo its (g, f)))"
  using ammo_loop_effect[OF enumerate_distinct, of g f 0 "item_ammo its"] assms
  by (simp_all add: interact_ammo_def ammo_collectable_def)

lemma interact_clue_effect:
  assumes "zone_items_of g = its"
  shows "collected (fst (interact_clue its (g, f)))
           = collected g \<union> (if clue_collectable g then {clue_id (Game.zone g)} else {})"
    and "clues (player (fst (interact_clue its (g, f))))
           = clues (player g) + (if clue_collectable g then 1 else 0)"
    and "ammo (player (fst (interact_clue its (g, f)))) = ammo (player g)"
    and "has_gun (player (fst (interact_clue its (g, f)))) = has_gun (player g)"
    and "keys (player (fst (interact_clue its (g, f)))) = keys (player g)"
    and "npcs (fst (interact_clue its (g, f))) = npcs g"
    and "same_place g (fst (interact_clue its (g, f)))"
  using assms
  by (auto simp add: interact_clue_def clue_collectable_def same_place_def Let_def
      split: option.splits)

lemma key_step_effect:
  "collected (fst (key_step its s k)) = collected (fst s)"
  "clues (player (fst (key_step its s k))) = clues (player (fst s))"
  "ammo (player (fst (key_step its s k))) = ammo (player (fst s))"
  "has_gun (player (fst (key_step its s k))) = has_gun (player (fst s))"
  "npcs (fst (key_step its s k)) = npcs (fst s)"
  "same_place (fst s) (fst (key_step its s k))"
  "keys (player (fst (key_step its s k)))
     = (if key_reachable its (fst s) k then keys_set_true k (keys (player (fst s)))
        else keys (player (fst s)))"
  by (auto simp add: key_step_def key_reachable_def same_place_def Let_def keys_get_def
      keys_set_true_def split: option.splits)

lemma key_reachable_same: "same_place g g' \<Longrightarrow> key_reachable its g' k = key_reachable its g k"
  by (auto simp add: key_reachable_def same_place_def split: option.splits)

lemma interact_keys_effect:
  "collected (fst (interact_keys its (g, f))) = collected g"
  "clues (player (fst (interact_keys its (g, f)))) = clues (player g)"
  "ammo (player (fst (interact_keys its (g, f)))) = ammo (player g)"
  "has_gun (player (fst (interact_keys its (g, f)))) = has_gun (player g)"
  "npcs (fst (interact_keys its (g, f))) = npcs g"
  "same_place g (fst (interact_keys its (g, f)))"
  "keys (player (fst (interact_keys its (g, f)))) =
     \<lparr>jail_key = jail_key (keys (player g)) \<or> key_reachable its g ''jail_key'',
      cave_key = cave_key (keys (player g)) \<or> key_reachable its g ''cave_key'',
      boat_key = boat_key (keys (player g)) \<or> key_reachable its g ''boat_key''\<rparr>"
proof -
  let ?s1 = "key_step its (g, f) ''jail_key''"
  let ?s2 = "key_step its ?s1 ''cave_key''"
  let ?s3 = "key_step its ?s2 ''boat_key''"
  have e: "interact_keys its (g, f) = ?s3" by (simp add: interact_keys_def)
  have p1: "same_place g (fst ?s1)" using key_step_effect(6)[of "(g, f)"] by simp
  have p2: "same_place (fst ?s1) (fst ?s2)" by (rule key_step_effect)
  have p3: "same_place (fst ?s2) (fst ?s3)" by (rule key_step_effect)
  have p12: "same_place g (fst ?s2)" using p1 p2 by (rule same_place_trans)
  show "same_place g (fst (interact_keys its (g, f)))"
    unfolding e using p12 p3 by (rule same_place_trans)
  show "collected (fst (interact_keys its (g, f))) = collected g"
    unfolding e by (simp add: key_step_effect)
  show "clues (player (fst (interact_keys its (g, f)))) = clues (player g)"
    unfolding e by (simp add: key_step_effect)
  show "ammo (player (fst (interact_keys its (g, f)))) = ammo (player g)"
    unfolding e by (simp add: key_step_effect)
  show "has_gun (player (fst (interact_keys its (g, f)))) = has_gun (player g)"
    unfolding e by (simp add: key_step_effect)
  show "npcs (fst (interact_keys its (g, f))) = npcs g"
    unfolding e by (simp add: key_step_effect)
  have k1: "keys (player (fst ?s1))
      = (if key_reachable its g ''jail_key'' then keys_set_true ''jail_key'' (keys (player g))
         else keys (player g))"
    using key_step_effect(7)[of its "(g, f)"] by simp
  have k2: "keys (player (fst ?s2))
      = (if key_reachable its g ''cave_key'' then keys_set_true ''cave_key'' (keys (player (fst ?s1)))
         else keys (player (fst ?s1)))"
    by (simp only: key_step_effect key_reachable_same[OF p1])
  have k3: "keys (player (fst ?s3))
      = (if key_reachable its g ''boat_key'' then keys_set_true ''boat_key'' (keys (player (fst ?s2)))
         else keys (player (fst ?s2)))"
    by (simp only: key_step_effect key_reachable_same[OF p12])
  show "keys (player (fst (interact_keys its (g, f)))) =
     \<lparr>jail_key = jail_key (keys (player g)) \<or> key_reachable its g ''jail_key'',
      cave_key = cave_key (keys (player g)) \<or> key_reachable its g ''cave_key'',
      boat_key = boat_key (keys (player g)) \<or> key_reachable its g ''boat_key''\<rparr>"
    unfolding e k3 k2 k1 by (cases "keys (player g)") (simp add: keys_set_true_def)
qed

lemma npcs_loop_no_hit: "\<not> snd (npcs_loop z pr ns) \<Longrightarrow> fst (npcs_loop z pr ns) = ns"
  by (induction ns) (auto simp add: case_prod_beta split: if_splits)

lemma interact_npcs_effect:
  "collected (fst (interact_npcs (g, f))) = collected g"
  "player (fst (interact_npcs (g, f))) = player g"
  "same_place g (fst (interact_npcs (g, f)))"
  "npcs (fst (interact_npcs (g, f))) = fst (npcs_loop (Game.zone g) (rect (player g)) (npcs g))"
  by (auto simp add: interact_npcs_def same_place_def Let_def case_prod_beta npcs_loop_no_hit)


lemma ammo_collectable_cong:
  assumes "same_place g g'"
    and "\<And>i. ammo_id (Game.zone g) i \<in> collected g' \<longleftrightarrow> ammo_id (Game.zone g) i \<in> collected g"
  shows "ammo_collectable g' = ammo_collectable g"
proof -
  have "ammo_pick g' = ammo_pick g"
    using assms by (intro ext) (simp add: ammo_pick_def same_place_def)
  then show ?thesis
    using same_place_items[OF assms(1)] by (simp add: ammo_collectable_def)
qed

lemma clue_collectable_cong:
  assumes "same_place g g'"
    and "clue_id (Game.zone g) \<in> collected g' \<longleftrightarrow> clue_id (Game.zone g) \<in> collected g"
  shows "clue_collectable g' = clue_collectable g"
  using assms same_place_items[OF assms(1)]
  by (auto simp add: clue_collectable_def same_place_def split: option.splits)

text \<open>The five stages in a row, with the state after each.\<close>

lemma interact_stages:
  obtains g1 f1 g2 f2 g3 f3 g4 f4 g5 f5 where
    "interact_gun (zone_items_of g) (g, False) = (g1, f1)"
    "interact_ammo (zone_items_of g) (g1, f1) = (g2, f2)"
    "interact_clue (zone_items_of g) (g2, f2) = (g3, f3)"
    "interact_keys (zone_items_of g) (g3, f3) = (g4, f4)"
    "interact_npcs (g4, f4) = (g5, f5)"
    "interact g = (if f5 then g5\<lparr>sounds := sounds g5 @ [''item_pickup''], message_time := 2\<rparr> else g5)"
proof -
  obtain g1 f1 where s1: "interact_gun (zone_items_of g) (g, False) = (g1, f1)"
    by (cases "interact_gun (zone_items_of g) (g, False)")
  obtain g2 f2 where s2: "interact_ammo (zone_items_of g) (g1, f1) = (g2, f2)"
    by (cases "interact_ammo (zone_items_of g) (g1, f1)")
  obtain g3 f3 where s3: "interact_clue (zone_items_of g) (g2, f2) = (g3, f3)"
    by (cases "interact_clue (zone_items_of g) (g2, f2)")
  obtain g4 f4 where s4: "interact_keys (zone_items_of g) (g3, f3) = (g4, f4)"
    by (cases "interact_keys (zone_items_of g) (g3, f3)")
  obtain g5 f5 where s5: "interact_npcs (g4, f4) = (g5, f5)"
    by (cases "interact_npcs (g4, f4)")
  have "interact g = (if f5 then g5\<lparr>sounds := sounds g5 @ [''item_pickup''], message_time := 2\<rparr> else g5)"
    by (simp add: interact_def Let_def s1 s2 s3 s4 s5)
  then show ?thesis using that s1 s2 s3 s4 s5 by blast
qed

lemma interact_inventory:
  "ammo (player (interact g))
     = ammo (player g) + (if gun_collectable g then 20 else 0)
       + 12 * int (length (ammo_collectable g))"
  "clues (player (interact g)) = clues (player g) + (if clue_collectable g then 1 else 0)"
  "has_gun (player (interact g)) = (has_gun (player g) \<or> gun_collectable g)"
  "collected (interact g)
     = collected g \<union> (if gun_collectable g then {''gun''} else {})
       \<union> (\<lambda>ib. ammo_id (Game.zone g) (fst ib)) ` set (ammo_collectable g)
       \<union> (if clue_collectable g then {clue_id (Game.zone g)} else {})"
  "same_place g (interact g)"
  "keys (player (interact g)) =
     \<lparr>jail_key = jail_key (keys (player g)) \<or> key_reachable (zone_items_of g) g ''jail_key'',
      cave_key = cave_key (keys (player g)) \<or> key_reachable (zone_items_of g) g ''cave_key'',
      boat_key = boat_key (keys (player g)) \<or> key_reachable (zone_items_of g) g ''boat_key''\<rparr>"
  "npcs (interact g) = fst (npcs_loop (Game.zone g) (rect (player g)) (npcs g))"
proof -
  let ?its = "zone_items_of g"
  obtain g1 f1 g2 f2 g3 f3 g4 f4 g5 f5 where
    s1: "interact_gun ?its (g, False) = (g1, f1)" and
    s2: "interact_ammo ?its (g1, f1) = (g2, f2)" and
    s3: "interact_clue ?its (g2, f2) = (g3, f3)" and
    s4: "interact_keys ?its (g3, f3) = (g4, f4)" and
    s5: "interact_npcs (g4, f4) = (g5, f5)" and
    fin: "interact g = (if f5 then g5\<lparr>sounds := sounds g5 @ [''item_pickup''], message_time := 2\<rparr> else g5)"
    by (rule interact_stages)
  note e1 = interact_gun_effect[where g = g and f = False, unfolded s1 fst_conv]
  have p1: "same_place g g1" by (rule e1)
  have i1: "zone_items_of g1 = ?its" using p1 by (rule same_place_items)
  have z1: "Game.zone g1 = Game.zone g" using p1 by (simp add: same_place_def)
  note e2 = interact_ammo_effect[OF i1, where f = f1, unfolded s2 fst_conv]
  have p2: "same_place g1 g2" by (rule e2)
  have p02: "same_place g g2" using p1 p2 by (rule same_place_trans)
  have i2: "zone_items_of g2 = ?its" using p02 by (rule same_place_items)
  have z2: "Game.zone g2 = Game.zone g" using p02 by (simp add: same_place_def)
  note e3 = interact_clue_effect[OF i2, where f = f2, unfolded s3 fst_conv]
  have p3: "same_place g2 g3" by (rule e3)
  have p03: "same_place g g3" using p02 p3 by (rule same_place_trans)
  note e4 = interact_keys_effect[where its = ?its and g = g3 and f = f3, unfolded s4 fst_conv]
  have p4: "same_place g3 g4" by (rule e4)
  have p04: "same_place g g4" using p03 p4 by (rule same_place_trans)
  note e5 = interact_npcs_effect[where g = g4 and f = f4, unfolded s5 fst_conv]
  have p5: "same_place g4 g5" by (rule e5)
  have p05: "same_place g g5" using p04 p5 by (rule same_place_trans)
  have a1: "ammo_collectable g1 = ammo_collectable g"
    by (rule ammo_collectable_cong[OF p1]) (simp add: e1 ids_distinct)
  have c2: "clue_collectable g2 = clue_collectable g"
    by (rule clue_collectable_cong[OF p02])
       (auto simp add: e2 e1 z1 ids_distinct)
  have fields: "player (interact g) = player g5" "collected (interact g) = collected g5"
    "npcs (interact g) = npcs g5" "Game.zone (interact g) = Game.zone g5"
    "items (interact g) = items g5"
    by (simp_all add: fin)
  show "ammo (player (interact g))
     = ammo (player g) + (if gun_collectable g then 20 else 0)
       + 12 * int (length (ammo_collectable g))"
    by (simp add: fields e5 e4 e3 e2 e1 a1)
  show "clues (player (interact g)) = clues (player g) + (if clue_collectable g then 1 else 0)"
    by (simp add: fields e5 e4 e3 e2 e1 c2)
  show "has_gun (player (interact g)) = (has_gun (player g) \<or> gun_collectable g)"
    by (simp add: fields e5 e4 e3 e2 e1)
  show "collected (interact g)
     = collected g \<union> (if gun_collectable g then {''gun''} else {})
       \<union> (\<lambda>ib. ammo_id (Game.zone g) (fst ib)) ` set (ammo_collectable g)
       \<union> (if clue_collectable g then {clue_id (Game.zone g)} else {})"
    by (simp add: fields e5 e4 e3 e2 e1 a1 c2 z1 z2)
  show "same_place g (interact g)"
    using p05 by (simp add: same_place_def fields)
  show "keys (player (interact g)) =
     \<lparr>jail_key = jail_key (keys (player g)) \<or> key_reachable ?its g ''jail_key'',
      cave_key = cave_key (keys (player g)) \<or> key_reachable ?its g ''cave_key'',
      boat_key = boat_key (keys (player g)) \<or> key_reachable ?its g ''boat_key''\<rparr>"
    by (simp add: fields e5 e4 e3 e2 e1 key_reachable_same[OF p03])
  show "npcs (interact g) = fst (npcs_loop (Game.zone g) (rect (player g)) (npcs g))"
    using p04 by (simp add: fields e5 e4 e3 e2 e1 same_place_def)
qed












lemma interact_nonneg_ammo: "0 \<le> ammo (player g) \<Longrightarrow> 0 \<le> ammo (player (interact g))"
  by (simp add: interact_inventory(1))





end
